theory Spec2Isabelle
  imports Complex_Main "HOL-Library.Word" "HOL-Library.AList"
begin

section \<open>JavaScript strings\<close>

text \<open>
  A JavaScript string is a sequence of UTF-16 code units; \<open>length\<close>, \<open>substring\<close> and a
  regular expression without the \<open>u\<close> flag all work on code units.
\<close>

type_synonym code_unit = "16 word"
type_synonym jsstring = "code_unit list"

text \<open>ASCII literals of the source, written as HOL strings.\<close>

definition ascii :: "string \<Rightarrow> jsstring" where
  "ascii s = map (\<lambda>c. of_nat (of_char c)) s"

text \<open>
  ECMAScript \<open>WhiteSpace\<close> and \<open>LineTerminator\<close>: what \<open>String.prototype.trim\<close> removes and
  what \<open>parseInt\<close> skips at the start of its argument.
\<close>

definition isWhiteSpace :: "code_unit \<Rightarrow> bool" where
  "isWhiteSpace c \<longleftrightarrow>
     c = 0x09 \<or> c = 0x0A \<or> c = 0x0B \<or> c = 0x0C \<or> c = 0x0D \<or> c = 0x20 \<or> c = 0xA0 \<or>
     c = 0x1680 \<or> (0x2000 \<le> c \<and> c \<le> 0x200A) \<or> c = 0x2028 \<or> c = 0x2029 \<or>
     c = 0x202F \<or> c = 0x205F \<or> c = 0x3000 \<or> c = 0xFEFF"

definition trim :: "jsstring \<Rightarrow> jsstring" where
  "trim s = rev (dropWhile isWhiteSpace (rev (dropWhile isWhiteSpace s)))"

text \<open>\<open>.replace(/[<>]/g, '')\<close> and \<open>.replace(/['"]/g, '')\<close>.\<close>

definition isAngle :: "code_unit \<Rightarrow> bool" where
  "isAngle c \<longleftrightarrow> c = 0x3C \<or> c = 0x3E"

definition isQuote :: "code_unit \<Rightarrow> bool" where
  "isQuote c \<longleftrightarrow> c = 0x27 \<or> c = 0x22"

definition removeAll :: "(code_unit \<Rightarrow> bool) \<Rightarrow> jsstring \<Rightarrow> jsstring" where
  "removeAll p s = filter (\<lambda>c. \<not> p c) s"

text \<open>\<open>.substring(0, n)\<close> for a non-negative constant \<open>n\<close>.\<close>

definition substring0 :: "nat \<Rightarrow> jsstring \<Rightarrow> jsstring" where
  "substring0 n s = take n s"

definition sanitizeString :: "jsstring \<Rightarrow> jsstring" where
  "sanitizeString input = substring0 255 (removeAll isQuote (removeAll isAngle (trim input)))"

text \<open>A string with no leading and no trailing white space.\<close>

definition isTrimmed :: "jsstring \<Rightarrow> bool" where
  "isTrimmed s \<longleftrightarrow> s = [] \<or> (\<not> isWhiteSpace (hd s) \<and> \<not> isWhiteSpace (last s))"

section \<open>JavaScript numbers\<close>

text \<open>
  A Number is an IEEE 754 binary64 value. A finite one is given by its exact rational
  value; the sign of zero is not tracked (no operation of the modelled code observes it).
  \<open>fl\<close> rounds a rational to the nearest binary64 value, ties to even, as every
  arithmetic operation and every numeric literal does.
\<close>

datatype jsnum = NaN | PInf | NInf | Fin rat

function lg_up :: "rat \<Rightarrow> int" where
  "lg_up q = (if 2 \<le> q then lg_up (q / 2) + 1 else 0)"
  by pat_completeness auto
termination
proof (relation "measure (\<lambda>q. nat \<lfloor>q\<rfloor>)")
  show "wf (measure (\<lambda>q::rat. nat \<lfloor>q\<rfloor>))" by simp
next
  fix q :: rat
  assume "2 \<le> q"
  then have "q / 2 < of_int \<lfloor>q\<rfloor>" "1 \<le> \<lfloor>q\<rfloor>"
    by linarith+
  then show "(q / 2, q) \<in> measure (\<lambda>q. nat \<lfloor>q\<rfloor>)"
    by (simp add: floor_less_iff)
qed

function lg_down :: "rat \<Rightarrow> int" where
  "lg_down q = (if 0 < q \<and> q < 1 then lg_down (2 * q) - 1 else 0)"
  by pat_completeness auto
termination
proof (relation "measure (\<lambda>q. nat \<lfloor>1 / q\<rfloor>)")
  show "wf (measure (\<lambda>q::rat. nat \<lfloor>1 / q\<rfloor>))" by simp
next
  fix q :: rat
  assume a: "0 < q \<and> q < 1"
  define x where "x = 1 / q"
  from a have "1 < x" by (simp add: x_def)
  then have c: "1 \<le> \<lfloor>x\<rfloor>" by linarith
  then have d: "(1::rat) \<le> of_int \<lfloor>x\<rfloor>" by simp
  have "x < of_int \<lfloor>x\<rfloor> + 1" by linarith
  with d have "x / 2 < of_int \<lfloor>x\<rfloor>" by linarith
  moreover have "1 / (2 * q) = x / 2" by (simp add: x_def)
  ultimately have "\<lfloor>1 / (2 * q)\<rfloor> < \<lfloor>x\<rfloor>"
    by (simp add: floor_less_iff)
  with c show "(2 * q, q) \<in> measure (\<lambda>q. nat \<lfloor>1 / q\<rfloor>)"
    by (simp add: x_def)
qed

declare lg_up.simps [simp del] lg_down.simps [simp del]

text \<open>The binary exponent of a positive rational: \<open>2 powi (ilog2 q) \<le> q < 2 powi (ilog2 q + 1)\<close>.\<close>

definition ilog2 :: "rat \<Rightarrow> int" where
  "ilog2 q = (if 1 \<le> q then lg_up q else lg_down q)"

definition round_half_even :: "rat \<Rightarrow> int" where
  "round_half_even x =
     (let f = \<lfloor>x\<rfloor>; d = x - of_int f
      in if d < 1 / 2 then f else if 1 / 2 < d then f + 1 else if even f then f else f + 1)"

definition fl :: "rat \<Rightarrow> jsnum" where
  "fl q =
     (if q = 0 then Fin 0
      else let e = max (ilog2 \<bar>q\<bar>) (- 1022);
               u = 2 powi (e - 52);
               r = of_int (round_half_even (q / u)) * u
           in if 2 powi 1024 \<le> r then PInf else if r \<le> - (2 powi 1024) then NInf else Fin r)"

text \<open>A rational that is the value of a binary64 number.\<close>

definition is_double :: "rat \<Rightarrow> bool" where
  "is_double q \<longleftrightarrow> fl q = Fin q"

definition sign_of :: "jsnum \<Rightarrow> int" where
  "sign_of x = (case x of NaN \<Rightarrow> 0 | PInf \<Rightarrow> 1 | NInf \<Rightarrow> - 1 | Fin q \<Rightarrow> sgn \<lfloor>sgn q\<rfloor>)"

definition signed_inf :: "int \<Rightarrow> jsnum" where
  "signed_inf s = (if s = 0 then NaN else if 0 < s then PInf else NInf)"

text \<open>\<open>x * y\<close>, \<open>x / y\<close>, \<open>x < y\<close>, \<open>x > y\<close>, \<open>Number.isNaN\<close> and \<open>Math.round\<close> on Numbers.\<close>

fun js_mul :: "jsnum \<Rightarrow> jsnum \<Rightarrow> jsnum" where
  "js_mul NaN y = NaN"
| "js_mul x NaN = NaN"
| "js_mul (Fin a) (Fin b) = fl (a * b)"
| "js_mul x y = signed_inf (sign_of x * sign_of y)"

fun js_div :: "jsnum \<Rightarrow> jsnum \<Rightarrow> jsnum" where
  "js_div NaN y = NaN"
| "js_div x NaN = NaN"
| "js_div (Fin a) (Fin b) = (if b = 0 then signed_inf (sign_of (Fin a)) else fl (a / b))"
| "js_div (Fin a) y = Fin 0"
| "js_div x (Fin b) = signed_inf (sign_of x * (if b < 0 then - 1 else 1))"
| "js_div x y = NaN"

fun js_lt :: "jsnum \<Rightarrow> jsnum \<Rightarrow> bool" where
  "js_lt NaN y = False"
| "js_lt x NaN = False"
| "js_lt (Fin a) (Fin b) = (a < b)"
| "js_lt x PInf = (x \<noteq> PInf)"
| "js_lt NInf y = (y \<noteq> NInf)"
| "js_lt x y = False"

definition js_gt :: "jsnum \<Rightarrow> jsnum \<Rightarrow> bool" where
  "js_gt x y = js_lt y x"

definition Number_isNaN :: "jsnum \<Rightarrow> bool" where
  "Number_isNaN x \<longleftrightarrow> x = NaN"

text \<open>
  \<open>Math.round\<close> returns the integer nearest to its argument, a tie going towards
  \<open>+\<infinity>\<close>: the floor of \<open>x + 1/2\<close>, computed exactly (the result is always a binary64
  value when \<open>x\<close> is).
\<close>

definition Math_round :: "jsnum \<Rightarrow> jsnum" where
  "Math_round x = (case x of Fin q \<Rightarrow> Fin (of_int \<lfloor>q + 1 / 2\<rfloor>) | _ \<Rightarrow> x)"

section \<open>JavaScript values and request bodies\<close>

datatype jsvalue =
    JUndefined
  | JNull
  | JBool bool
  | JNum (num_of: jsnum)
  | JStr (str_of: jsstring)
  | JArr "jsvalue list"
  | JObj "(jsstring \<times> jsvalue) list"

text \<open>\<open>typeof v\<close> and the truth value of \<open>v\<close> (what \<open>!v\<close> negates).\<close>

fun typeof :: "jsvalue \<Rightarrow> string" where
  "typeof JUndefined = ''undefined''"
| "typeof JNull = ''object''"
| "typeof (JBool b) = ''boolean''"
| "typeof (JNum n) = ''number''"
| "typeof (JStr s) = ''string''"
| "typeof (JArr xs) = ''object''"
| "typeof (JObj kvs) = ''object''"

fun truthy :: "jsvalue \<Rightarrow> bool" where
  "truthy JUndefined = False"
| "truthy JNull = False"
| "truthy (JBool b) = b"
| "truthy (JNum n) = (n \<noteq> NaN \<and> n \<noteq> Fin 0)"
| "truthy (JStr s) = (s \<noteq> [])"
| "truthy (JArr xs) = True"
| "truthy (JObj kvs) = True"

text \<open>
  Reading the property \<open>k\<close> of a value, for the keys \<open>name\<close> and \<open>price\<close> the code reads: an
  object holds its own properties as an association list, every other value that can be
  read has neither key, and reading a property of \<open>undefined\<close> or \<open>null\<close> throws a
  TypeError (\<open>None\<close>).
\<close>

fun getProp :: "jsvalue \<Rightarrow> jsstring \<Rightarrow> jsvalue option" where
  "getProp JUndefined k = None"
| "getProp JNull k = None"
| "getProp (JObj kvs) k = Some (case map_of kvs k of None \<Rightarrow> JUndefined | Some v \<Rightarrow> v)"
| "getProp v k = Some JUndefined"

text \<open>Assigning the property \<open>k\<close> of an object.\<close>

fun setProp :: "jsvalue \<Rightarrow> jsstring \<Rightarrow> jsvalue \<Rightarrow> jsvalue" where
  "setProp (JObj kvs) k v = JObj (AList.update k v kvs)"
| "setProp b k v = b"

text \<open>\<open>const { name, price } = req.body\<close>.\<close>

definition destructure :: "jsvalue \<Rightarrow> (jsvalue \<times> jsvalue) option" where
  "destructure b =
     (case getProp b (ascii ''name'') of
        None \<Rightarrow> None
      | Some name \<Rightarrow>
          (case getProp b (ascii ''price'') of None \<Rightarrow> None | Some price \<Rightarrow> Some (name, price)))"

section \<open>The validation middleware\<close>

text \<open>\<open>res.status(s).json({ error: m })\<close>.\<close>

record error_response =
  status :: nat
  message :: string

definition reject :: "nat \<Rightarrow> string \<Rightarrow> error_response" where
  "reject s m = \<lparr>status = s, message = m\<rparr>"

text \<open>The numeric literal \<open>999999.99\<close>.\<close>

definition MAX_PRICE :: jsnum where
  "MAX_PRICE = fl (99999999 / 100)"

text \<open>\<open>Math.round(price * 100) / 100\<close>.\<close>

definition roundPrice :: "jsnum \<Rightarrow> jsnum" where
  "roundPrice price = js_div (Math_round (js_mul price (Fin 100))) (Fin 100)"

text \<open>
  \<open>validateProductInput\<close> on the request body: \<open>Inl\<close> is the response sent (the handler
  chain stops), \<open>Inr\<close> is the body as the middleware leaves it when it calls \<open>next()\<close>.
  A TypeError thrown inside the \<open>try\<close> block is caught and answered with the generic
  message.
\<close>

definition validateProductInput :: "jsvalue \<Rightarrow> error_response + jsvalue" where
  "validateProductInput body =
     (case destructure body of
        None \<Rightarrow> Inl (reject 400 ''Invalid request data'')
      | Some (name, price) \<Rightarrow>
          if \<not> truthy name then Inl (reject 400 ''Product name is required'')
          else if typeof name \<noteq> ''string'' then Inl (reject 400 ''Product name must be a string'')
          else
            let sanitizedName = sanitizeString (str_of name) in
            if length sanitizedName = 0 then Inl (reject 400 ''Product name cannot be empty'')
            else if length sanitizedName < 3
              then Inl (reject 400 ''Product name must be at least 3 characters'')
            else if 100 < length sanitizedName
              then Inl (reject 400 ''Product name must not exceed 100 characters'')
            else if price = JUndefined \<or> price = JNull
              then Inl (reject 400 ''Product price is required'')
            else if typeof price \<noteq> ''number''
              then Inl (reject 400 ''Product price must be a number'')
            else if Number_isNaN (num_of price)
              then Inl (reject 400 ''Product price must be a valid number'')
            else if js_lt (num_of price) (Fin 0)
              then Inl (reject 400 ''Product price must be non-negative'')
            else if js_gt (num_of price) MAX_PRICE
              then Inl (reject 400 ''Product price exceeds maximum allowed value'')
            else
              let sanitizedPrice = roundPrice (num_of price) in
              Inr (setProp (setProp body (ascii ''name'') (JStr sanitizedName))
                     (ascii ''price'') (JNum sanitizedPrice)))"

text \<open>
  The rules of the specification for \<open>validateCreate\<close>, in its order and in its words. A
  rule gives the rejection message when it fails; the first failing rule decides the
  outcome. Rule 1, the name is present, fails for an absent or null name: the reading of
  present that the specification gives for the price.
\<close>

type_synonym rule = "jsvalue \<times> jsvalue \<Rightarrow> string option"

definition spec_rules :: "rule list" where
  "spec_rules =
     [\<lambda>(name, price). if name \<noteq> JUndefined \<and> name \<noteq> JNull then None
         else Some ''Product name is required'',
      \<lambda>(name, price). if typeof name = ''string'' then None
         else Some ''Product name must be a string'',
      \<lambda>(name, price). if length (sanitizeString (str_of name)) = 0
         then Some ''Product name cannot be empty'' else None,
      \<lambda>(name, price). if length (sanitizeString (str_of name)) < 3
         then Some ''Product name must be at least 3 characters''
         else if 100 < length (sanitizeString (str_of name))
         then Some ''Product name must not exceed 100 characters'' else None,
      \<lambda>(name, price). if price = JUndefined \<or> price = JNull
         then Some ''Product price is required'' else None,
      \<lambda>(name, price). if typeof price = ''number'' then None
         else Some ''Product price must be a number'',
      \<lambda>(name, price). if Number_isNaN (num_of price)
         then Some ''Product price must be a valid number'' else None,
      \<lambda>(name, price). if js_lt (num_of price) (Fin 0)
         then Some ''Product price must be non-negative'' else None,
      \<lambda>(name, price). if js_gt (num_of price) MAX_PRICE
         then Some ''Product price exceeds maximum allowed value'' else None]"

fun first_failure :: "rule list \<Rightarrow> jsvalue \<times> jsvalue \<Rightarrow> string option" where
  "first_failure [] x = None"
| "first_failure (r # rs) x = (case r x of Some m \<Rightarrow> Some m | None \<Rightarrow> first_failure rs x)"

text \<open>The rejection the specification's rules give for a body (\<open>None\<close>: accepted).\<close>

definition spec_validateCreate :: "jsvalue \<Rightarrow> error_response option" where
  "spec_validateCreate body =
     (case destructure body of
        None \<Rightarrow> Some (reject 400 ''Invalid request data'')
      | Some np \<Rightarrow> map_option (reject 400) (first_failure spec_rules np))"

definition rejection :: "error_response + 'a \<Rightarrow> error_response option" where
  "rejection r = (case r of Inl e \<Rightarrow> Some e | Inr b \<Rightarrow> None)"

section \<open>parseInt and the decimal form of an integer\<close>

text \<open>
  \<open>parseInt(s)\<close> with no radix: leading white space is skipped, then an optional sign,
  then \<open>0x\<close> or \<open>0X\<close> selects radix 16 (otherwise 10), then the longest run of digits of
  the radix is read; whatever follows is ignored. \<open>None\<close> is \<open>NaN\<close> (no digit). The
  result is given as the integer read: the Number returned is the binary64 value nearest
  to it, which compares with the integer constants of this code (0, 1, 100, 1048576) as
  the integer itself does.
\<close>

definition digitValue :: "code_unit \<Rightarrow> nat" where
  "digitValue c =
     (if 0x30 \<le> c \<and> c \<le> 0x39 then unat c - 48
      else if 0x61 \<le> c \<and> c \<le> 0x7A then unat c - 87
      else if 0x41 \<le> c \<and> c \<le> 0x5A then unat c - 55
      else 36)"

definition isRadixDigit :: "nat \<Rightarrow> code_unit \<Rightarrow> bool" where
  "isRadixDigit r c \<longleftrightarrow> digitValue c < r"

definition digitsValue :: "nat \<Rightarrow> jsstring \<Rightarrow> nat" where
  "digitsValue r ds = foldl (\<lambda>acc c. acc * r + digitValue c) 0 ds"

definition parseInt :: "jsstring \<Rightarrow> int option" where
  "parseInt input =
     (let s1 = dropWhile isWhiteSpace input;
          negative = (s1 \<noteq> [] \<and> hd s1 = 0x2D);
          s2 = (if s1 \<noteq> [] \<and> (hd s1 = 0x2B \<or> hd s1 = 0x2D) then tl s1 else s1);
          hex = (2 \<le> length s2 \<and> s2 ! 0 = 0x30 \<and> (s2 ! 1 = 0x78 \<or> s2 ! 1 = 0x58));
          r = (if hex then 16 else 10);
          s3 = (if hex then drop 2 s2 else s2);
          z = takeWhile (isRadixDigit r) s3
      in if z = [] then None
         else Some ((if negative then - 1 else 1) * int (digitsValue r z)))"

text \<open>The decimal digits of an integer.\<close>

fun digitsOf :: "nat \<Rightarrow> jsstring" where
  "digitsOf n = (if n < 10 then [of_nat (48 + n)] else digitsOf (n div 10) @ [of_nat (48 + n mod 10)])"

declare digitsOf.simps [simp del]

definition numberToString :: "int \<Rightarrow> jsstring" where
  "numberToString n = (if n < 0 then 0x2D # digitsOf (nat (- n)) else digitsOf (nat n))"

text \<open>
  \<open>x.toString()\<close> for the Number \<open>x\<close> that \<open>parseInt\<close> returns when it reads the integer
  \<open>i\<close>. Below \<open>2^53\<close> the Number is \<open>i\<close> itself and the string is its decimal digits.
  From \<open>2^53\<close> on the Number is \<open>fl i\<close>, and the string is made of the shortest digit
  string \<open>s\<close> (\<open>k\<close> digits) and the exponent \<open>n\<close> with \<open>s * 10^(n-k)\<close> rounding to the Number,
  the closest such \<open>s\<close> when there are several: the digits followed by zeros when
  \<open>n \<le> 21\<close>, the exponential form otherwise; \<open>Infinity\<close> when \<open>fl i\<close> overflows.
\<close>

definition shortestAt :: "int \<Rightarrow> nat \<Rightarrow> nat \<Rightarrow> (int \<times> nat) option" where
  "shortestAt m d k =
     (if d < k then None
      else
        let e = d - k; lo = m div 10 ^ e; hi = lo + 1;
            okLo = (fl (of_int (lo * 10 ^ e)) = Fin (of_int m));
            okHi = (fl (of_int (hi * 10 ^ e)) = Fin (of_int m) \<and> (hi < 10 ^ k \<or> k = 1));
            hiCloser = (hi * 10 ^ e - m < m - lo * 10 ^ e \<or>
                        (hi * 10 ^ e - m = m - lo * 10 ^ e \<and> even hi))
        in if okHi \<and> (hiCloser \<or> \<not> okLo)
           then Some (if hi < 10 ^ k then (hi, d) else (1, d + 1))
           else if okLo then Some (lo, d) else None)"

fun firstShortest :: "int \<Rightarrow> nat \<Rightarrow> nat list \<Rightarrow> int \<times> nat" where
  "firstShortest m d [] = (m, d)"
| "firstShortest m d (k # ks) =
     (case shortestAt m d k of Some r \<Rightarrow> r | None \<Rightarrow> firstShortest m d ks)"

definition shortestForm :: "int \<Rightarrow> jsstring" where
  "shortestForm m =
     (let d = length (digitsOf (nat m));
          (s, n) = firstShortest m d [1, 2, 3, 4, 5, 6, 7, 8, 9, 10, 11, 12, 13, 14, 15, 16, 17];
          ds = digitsOf (nat s);
          k = length ds
      in if n \<le> 21 then ds @ replicate (n - k) 0x30
         else (if k = 1 then ds else hd ds # 0x2E # tl ds) @ [0x65, 0x2B] @ digitsOf (n - 1))"

definition unsignedToString :: "int \<Rightarrow> jsstring" where
  "unsignedToString n =
     (if n < 2 ^ 53 then digitsOf (nat n)
      else (case fl (of_int n) of
              Fin v \<Rightarrow> shortestForm \<lfloor>v\<rfloor>
            | PInf \<Rightarrow> ascii ''Infinity''
            | NInf \<Rightarrow> ascii ''-Infinity''
            | NaN \<Rightarrow> ascii ''NaN''))"

definition parsedToString :: "int \<Rightarrow> jsstring" where
  "parsedToString n = (if n < 0 then 0x2D # unsignedToString (- n) else unsignedToString n)"

section \<open>Query parameters and the pagination middleware\<close>

text \<open>
  A parsed query value is a string, an array or a nested object. \<open>parseInt\<close> first
  converts its argument to a string: an array joins its elements with commas, an object
  gives \<open>[object Object]\<close>, and \<open>undefined\<close> gives \<open>undefined\<close>.
\<close>

datatype qsvalue = QStr jsstring | QArr "qsvalue list" | QObj "(jsstring \<times> qsvalue) list"

fun joinComma :: "jsstring list \<Rightarrow> jsstring" where
  "joinComma [] = []"
| "joinComma [x] = x"
| "joinComma (x # y # ys) = x @ [0x2C] @ joinComma (y # ys)"

fun qsToString :: "qsvalue \<Rightarrow> jsstring" where
  "qsToString (QStr s) = s"
| "qsToString (QArr xs) = joinComma (map qsToString xs)"
| "qsToString (QObj kvs) = ascii ''[object Object]''"

definition toStringOpt :: "qsvalue option \<Rightarrow> jsstring" where
  "toStringOpt v = (case v of None \<Rightarrow> ascii ''undefined'' | Some x \<Rightarrow> qsToString x)"

text \<open>\<open>req.query\<close>: the two parameters the code reads (\<open>None\<close>: \<open>undefined\<close>).\<close>

record query =
  limit :: "qsvalue option"
  skip :: "qsvalue option"

text \<open>The two \<open>if\<close> blocks of \<open>validatePaginationParams\<close>, in order.\<close>

definition limitBlock :: "query \<Rightarrow> error_response + query" where
  "limitBlock q =
     (if limit q \<noteq> None then
        (case parseInt (toStringOpt (limit q)) of
           None \<Rightarrow> Inl (reject 400 ''Invalid limit parameter. Must be between 1 and 100'')
         | Some limitNum \<Rightarrow>
             if limitNum < 1 \<or> 100 < limitNum
             then Inl (reject 400 ''Invalid limit parameter. Must be between 1 and 100'')
             else Inr (q\<lparr>limit := Some (QStr (parsedToString limitNum))\<rparr>))
      else Inr q)"

definition skipBlock :: "query \<Rightarrow> error_response + query" where
  "skipBlock q =
     (if skip q \<noteq> None then
        (case parseInt (toStringOpt (skip q)) of
           None \<Rightarrow> Inl (reject 400 ''Invalid skip parameter. Must be non-negative'')
         | Some skipNum \<Rightarrow>
             if skipNum < 0
             then Inl (reject 400 ''Invalid skip parameter. Must be non-negative'')
             else Inr (q\<lparr>skip := Some (QStr (parsedToString skipNum))\<rparr>))
      else Inr q)"

definition validatePaginationParams :: "query \<Rightarrow> error_response + query" where
  "validatePaginationParams q =
     (case limitBlock q of Inl e \<Rightarrow> Inl e | Inr q1 \<Rightarrow> skipBlock q1)"

section \<open>Requests, the size guard and the middleware chain\<close>

record request =
  req_headers :: "(string \<times> jsstring) list"
  req_body :: jsvalue
  req_query :: query

text \<open>\<open>req.get(name)\<close>: header names are held in lower case.\<close>

definition req_get :: "request \<Rightarrow> string \<Rightarrow> jsstring option" where
  "req_get r name = map_of (req_headers r) name"

definition limitRequestSize :: "request \<Rightarrow> error_response + request" where
  "limitRequestSize r =
     (let contentLength = req_get r ''content-length'' in
      if contentLength \<noteq> None \<and> contentLength \<noteq> Some []
         \<and> (case parseInt (the contentLength) of None \<Rightarrow> False | Some n \<Rightarrow> 1048576 < n)
      then Inl (reject 413 ''Request payload too large'')
      else Inr r)"

text \<open>
  The chain of the index file that installs the guard, in the order of its \<open>app.use\<close>
  calls: \<open>cors()\<close>, \<open>express.json()\<close>, \<open>limitRequestSize\<close>, the request logger, then the
  routes. \<open>cors()\<close> and \<open>express.json()\<close> are library middleware and the routes are
  registered later, so all three are parameters; the logger only prints. A middleware
  either answers (\<open>Inl\<close>) or passes the request on (\<open>Inr\<close>). The result is the list of
  stages that ran, in order, and the answer.
\<close>

datatype stage = CorsStage | JsonStage | SizeGuardStage | LoggerStage | RouteStage

datatype 'r reply = Err error_response | Lib 'r

definition app ::
  "(request \<Rightarrow> 'r reply + request) \<Rightarrow> (request \<Rightarrow> 'r reply + request) \<Rightarrow>
   (request \<Rightarrow> 'r reply) \<Rightarrow> request \<Rightarrow> stage list \<times> 'r reply" where
  "app cors json routes r0 =
     (case cors r0 of
        Inl a \<Rightarrow> ([CorsStage], a)
      | Inr r1 \<Rightarrow>
          (case json r1 of
             Inl a \<Rightarrow> ([CorsStage, JsonStage], a)
           | Inr r2 \<Rightarrow>
               (case limitRequestSize r2 of
                  Inl e \<Rightarrow> ([CorsStage, JsonStage, SizeGuardStage], Err e)
                | Inr r3 \<Rightarrow>
                    ([CorsStage, JsonStage, SizeGuardStage, LoggerStage, RouteStage],
                     routes r3))))"

text \<open>
  The chain of the other index file, which installs no size guard: \<open>cors()\<close>,
  \<open>express.json()\<close>, the request logger, then the routes.
\<close>

definition appNoGuard ::
  "(request \<Rightarrow> 'r reply + request) \<Rightarrow> (request \<Rightarrow> 'r reply + request) \<Rightarrow>
   (request \<Rightarrow> 'r reply) \<Rightarrow> request \<Rightarrow> stage list \<times> 'r reply" where
  "appNoGuard cors json routes r0 =
     (case cors r0 of
        Inl a \<Rightarrow> ([CorsStage], a)
      | Inr r1 \<Rightarrow>
          (case json r1 of
             Inl a \<Rightarrow> ([CorsStage, JsonStage], a)
           | Inr r2 \<Rightarrow> ([CorsStage, JsonStage, LoggerStage, RouteStage], routes r2)))"

text \<open>Library middleware that passes the request on: unchanged, or with a parsed body.\<close>

definition passOn :: "request \<Rightarrow> 'r reply + request" where
  "passOn r = Inr r"

definition parsedAs :: "jsvalue \<Rightarrow> request \<Rightarrow> 'r reply + request" where
  "parsedAs b r = Inr (r\<lparr>req_body := b\<rparr>)"

text \<open>Routes that answer every request with a fixed library reply (no route matches).\<close>

definition noRoutes :: "request \<Rightarrow> unit reply" where
  "noRoutes r = Lib ()"

section \<open>The product store and the product routes\<close>

text \<open>
  Modelled from the spec: ProductModel (models/product.ts is not among the sources). A
  product has a store-assigned id, the name and price it was created with, and a
  creation timestamp assigned at creation (milliseconds). Saving appends the product to
  the collection, or fails when the store is unreachable or refuses the write
  (\<open>storeOk\<close> false).
\<close>

record product =
  prod_id :: nat
  prod_name :: jsvalue
  prod_price :: jsvalue
  createdAt :: nat

definition save ::
  "bool \<Rightarrow> nat \<Rightarrow> nat \<Rightarrow> jsvalue \<Rightarrow> jsvalue \<Rightarrow> product list \<Rightarrow> (product \<times> product list) option" where
  "save storeOk newId now name price store =
     (if storeOk
      then let p = \<lparr>prod_id = newId, prod_name = name, prod_price = price, createdAt = now\<rparr>
           in Some (p, store @ [p])
      else None)"

datatype post_reply = Created product | PostError error_response

text \<open>\<open>router.post('/', validateProductInput, handler)\<close>.\<close>

definition postProduct ::
  "bool \<Rightarrow> nat \<Rightarrow> nat \<Rightarrow> product list \<Rightarrow> jsvalue \<Rightarrow> post_reply \<times> product list" where
  "postProduct storeOk newId now store body =
     (case validateProductInput body of
        Inl e \<Rightarrow> (PostError e, store)
      | Inr b \<Rightarrow>
          (case destructure b of
             None \<Rightarrow> (PostError (reject 500 ''server error''), store)
           | Some (name, price) \<Rightarrow>
               (case save storeOk newId now name price store of
                  None \<Rightarrow> (PostError (reject 500 ''server error''), store)
                | Some (saved, store') \<Rightarrow> (Created saved, store'))))"

text \<open>The create route as the last stage of a chain: it reads \<open>req.body\<close>.\<close>

definition createRoute ::
  "bool \<Rightarrow> nat \<Rightarrow> nat \<Rightarrow> product list \<Rightarrow> request \<Rightarrow> (post_reply \<times> product list) reply" where
  "createRoute storeOk newId now store r = Lib (postProduct storeOk newId now store (req_body r))"

text \<open>
  Modelled from the spec: the query of ProductModel (models/product.ts is not among the
  sources), \<open>ProductModel.find().sort({ createdAt: -1 }).limit(limit).skip(skip).lean()\<close>:
  the collection sorted by \<open>createdAt\<close> descending, then \<open>skip\<close> documents dropped, then at
  most \<open>limit\<close> returned, whatever the order of the two calls. The store leaves the order
  of documents with equal keys open; the model keeps them in insertion order. A limit
  of 0 means no limit, a negative limit its magnitude, and a negative skip is refused.
\<close>

definition sortByCreatedAtDesc :: "product list \<Rightarrow> product list" where
  "sortByCreatedAtDesc store = sort_key (\<lambda>p. - int (createdAt p)) store"

definition findProducts :: "bool \<Rightarrow> int \<Rightarrow> int \<Rightarrow> product list \<Rightarrow> product list option" where
  "findProducts storeOk limitNum skipNum store =
     (if \<not> storeOk \<or> skipNum < 0 then None
      else let rest = drop (nat skipNum) (sortByCreatedAtDesc store)
           in Some (if limitNum = 0 then rest else take (nat \<bar>limitNum\<bar>) rest))"

text \<open>\<open>x || d\<close> on the result of \<open>parseInt\<close>: \<open>NaN\<close> and 0 are falsy.\<close>

definition orElse :: "int option \<Rightarrow> int \<Rightarrow> int" where
  "orElse x d = (case x of None \<Rightarrow> d | Some n \<Rightarrow> if n = 0 then d else n)"

datatype get_reply = Listed "product list" | GetError error_response

text \<open>\<open>router.get('/', validatePaginationParams, handler)\<close>.\<close>

definition getProducts :: "bool \<Rightarrow> product list \<Rightarrow> query \<Rightarrow> get_reply" where
  "getProducts storeOk store q =
     (case validatePaginationParams q of
        Inl e \<Rightarrow> GetError e
      | Inr q1 \<Rightarrow>
          let limitNum = orElse (parseInt (toStringOpt (limit q1))) 100;
              skipNum = orElse (parseInt (toStringOpt (skip q1))) 0
          in (case findProducts storeOk limitNum skipNum store of
                None \<Rightarrow> GetError (reject 500 ''server error'')
              | Some list \<Rightarrow> Listed list))"

section \<open>The health endpoint\<close>

text \<open>
  The phases of the store connection and the number \<open>mongoose.connection.readyState\<close>
  gives for each (0 = disconnected, 1 = connected, 2 = connecting, 3 = disconnecting).
\<close>

datatype connection_state = Disconnected | Connected | Connecting | Disconnecting

fun readyState :: "connection_state \<Rightarrow> int" where
  "readyState Disconnected = 0"
| "readyState Connected = 1"
| "readyState Connecting = 2"
| "readyState Disconnecting = 3"

record health_response =
  http_status :: nat
  ok :: bool
  database :: string
  timestamp :: "string option"

text \<open>The handler of the index file without a status code: \<open>res.json\<close> answers 200.\<close>

definition healthOptimistic :: "int \<Rightarrow> health_response" where
  "healthOptimistic rs =
     (let dbStatus = (if rs = 1 then ''connected'' else ''disconnected'')
      in \<lparr>http_status = 200, ok = True, database = dbStatus, timestamp = None\<rparr>)"

text \<open>The handler of the other index file; \<open>now\<close> is \<open>new Date().toISOString()\<close>.\<close>

definition healthStrict :: "string \<Rightarrow> int \<Rightarrow> health_response" where
  "healthStrict now rs =
     (let dbStatus = rs;
          isHealthy = (dbStatus = 1);
          st = (if isHealthy then 200 else 503)
      in \<lparr>http_status = st, ok = isHealthy,
          database = (if dbStatus = 1 then ''connected'' else ''disconnected''),
          timestamp = Some now\<rparr>)"

section \<open>Evaluation and basic facts\<close>

lemma floor_rat_numeral_div [simp]:
  "\<lfloor>(numeral a :: rat) / numeral b\<rfloor> = numeral a div numeral b"
  using floor_divide_of_int_eq [of "numeral a" "numeral b", where ?'a = rat] by simp

lemmas str_eval =
  ascii_def trim_def isWhiteSpace_def removeAll_def isAngle_def isQuote_def substring0_def
  sanitizeString_def

lemmas num_eval =
  fl_def ilog2_def lg_up.simps lg_down.simps round_half_even_def Let_def roundPrice_def
  Math_round_def MAX_PRICE_def js_gt_def Number_isNaN_def

lemmas int_eval =
  parseInt_def digitValue_def isRadixDigit_def digitsValue_def numberToString_def
  digitsOf.simps toStringOpt_def parsedToString_def unsignedToString_def shortestForm_def
  shortestAt_def

subsection \<open>Trimming\<close>

lemma set_trim: "set (trim s) \<subseteq> set s"
  by (auto simp: trim_def dest!: set_dropWhileD)

lemma length_trim: "length (trim s) \<le> length s"
proof -
  have "length (trim s) = length (dropWhile isWhiteSpace (rev (dropWhile isWhiteSpace s)))"
    by (simp add: trim_def)
  also have "\<dots> \<le> length (rev (dropWhile isWhiteSpace s))"
    by (rule length_dropWhile_le)
  also have "\<dots> \<le> length s"
    by (simp add: length_dropWhile_le)
  finally show ?thesis .
qed

lemma last_dropWhile_nonempty: "dropWhile P xs \<noteq> [] \<Longrightarrow> last (dropWhile P xs) = last xs"
  by (metis last_appendR takeWhile_dropWhile_id)

lemma isTrimmed_trim: "isTrimmed (trim s)"
proof -
  define d where "d = dropWhile isWhiteSpace s"
  define r where "r = dropWhile isWhiteSpace (rev d)"
  have t: "trim s = rev r"
    by (simp add: trim_def d_def r_def)
  show ?thesis
  proof (cases "r = []")
    case True
    then show ?thesis by (simp add: t isTrimmed_def)
  next
    case False
    then have h: "\<not> isWhiteSpace (hd r)"
      unfolding r_def by (rule hd_dropWhile)
    from False have "d \<noteq> []"
      by (auto simp: r_def)
    then have "\<not> isWhiteSpace (hd d)"
      unfolding d_def by (rule hd_dropWhile)
    moreover have "last r = last (rev d)"
      using False unfolding r_def by (rule last_dropWhile_nonempty)
    ultimately have l: "\<not> isWhiteSpace (last r)"
      by (simp add: last_rev)
    from h l False show ?thesis
      by (simp add: t isTrimmed_def hd_rev last_rev)
  qed
qed

lemma trim_id:
  assumes "isTrimmed s"
  shows "trim s = s"
proof (cases "s = []")
  case True
  then show ?thesis by (simp add: trim_def)
next
  case False
  with assms have h: "\<not> isWhiteSpace (hd s)" and l: "\<not> isWhiteSpace (last s)"
    by (auto simp: isTrimmed_def)
  from h have 1: "dropWhile isWhiteSpace s = s"
    by (simp add: dropWhile_eq_self_iff)
  from l have 2: "dropWhile isWhiteSpace (rev s) = rev s"
    by (simp add: dropWhile_eq_self_iff hd_rev)
  show ?thesis by (simp add: trim_def 1 2)
qed

lemma trim_eq_iff: "trim s = s \<longleftrightarrow> isTrimmed s"
  by (metis isTrimmed_trim trim_id)

subsection \<open>The sanitizer\<close>

lemma removeAll_id: "(\<And>c. c \<in> set s \<Longrightarrow> \<not> p c) \<Longrightarrow> removeAll p s = s"
  by (simp add: removeAll_def)

lemma sanitize_no_angle: "c \<in> set (sanitizeString x) \<Longrightarrow> \<not> isAngle c"
  by (auto simp: sanitizeString_def substring0_def removeAll_def dest!: in_set_takeD)

lemma sanitize_no_quote: "c \<in> set (sanitizeString x) \<Longrightarrow> \<not> isQuote c"
  by (auto simp: sanitizeString_def substring0_def removeAll_def dest!: in_set_takeD)

lemma length_sanitize: "length (sanitizeString x) \<le> 255"
  by (simp add: sanitizeString_def substring0_def)

lemma sanitize_fixed:
  assumes "isTrimmed s" and "\<And>c. c \<in> set s \<Longrightarrow> \<not> isAngle c"
    and "\<And>c. c \<in> set s \<Longrightarrow> \<not> isQuote c" and "length s \<le> 255"
  shows "sanitizeString s = s"
  using assms by (simp add: sanitizeString_def trim_id removeAll_id substring0_def)

lemma sanitize_twice: "sanitizeString (sanitizeString x) = trim (sanitizeString x)"
proof -
  define y where "y = sanitizeString x"
  have a: "\<And>c. c \<in> set (trim y) \<Longrightarrow> \<not> isAngle c"
    using set_trim sanitize_no_angle unfolding y_def by blast
  have q: "\<And>c. c \<in> set (trim y) \<Longrightarrow> \<not> isQuote c"
    using set_trim sanitize_no_quote unfolding y_def by blast
  have "length (trim y) \<le> 255"
    using length_trim [of y] length_sanitize [of x] unfolding y_def by linarith
  then have "sanitizeString y = trim y"
    by (simp add: sanitizeString_def removeAll_id a q substring0_def)
  then show ?thesis by (simp add: y_def)
qed

subsection \<open>Decimal digits\<close>

lemma dec_digit_facts:
  assumes "d < 10"
  shows "digitValue (48 + of_nat d) = d" and "\<not> isWhiteSpace (48 + of_nat d)"
    and "((48 + of_nat d) :: code_unit) \<noteq> 0x2B" and "((48 + of_nat d) :: code_unit) \<noteq> 0x2D"
    and "((48 + of_nat d) :: code_unit) \<noteq> 0x78" and "((48 + of_nat d) :: code_unit) \<noteq> 0x58"
proof -
  from assms have "d \<in> {0, 1, 2, 3, 4, 5, 6, 7, 8, 9}" by auto
  then show "digitValue (48 + of_nat d) = d" and "\<not> isWhiteSpace (48 + of_nat d)"
    and "((48 + of_nat d) :: code_unit) \<noteq> 0x2B" and "((48 + of_nat d) :: code_unit) \<noteq> 0x2D"
    and "((48 + of_nat d) :: code_unit) \<noteq> 0x78" and "((48 + of_nat d) :: code_unit) \<noteq> 0x58"
    by (auto simp: digitValue_def isWhiteSpace_def)
qed

lemma digitsOf_chars: "c \<in> set (digitsOf n) \<Longrightarrow> \<exists>d<10. c = (48 + of_nat d)"
proof (induction n rule: digitsOf.induct)
  case (1 n)
  show ?case
  proof (cases "n < 10")
    case True
    with "1.prems" show ?thesis by (auto simp: digitsOf.simps [of n])
  next
    case False
    with "1.prems" have "c \<in> set (digitsOf (n div 10)) \<or> c = 48 + of_nat (n mod 10)"
      by (auto simp: digitsOf.simps [of n])
    then show ?thesis
    proof
      assume "c \<in> set (digitsOf (n div 10))"
      with False "1.IH" show ?thesis by blast
    next
      assume "c = 48 + of_nat (n mod 10)"
      moreover have "n mod 10 < 10" by simp
      ultimately show ?thesis by blast
    qed
  qed
qed

lemma digitsOf_nonempty: "digitsOf n \<noteq> []"
  by (subst digitsOf.simps) simp

lemma digitsValue_snoc: "digitsValue r (xs @ [c]) = digitsValue r xs * r + digitValue c"
  by (simp add: digitsValue_def)

lemma digitsValue_digitsOf: "digitsValue 10 (digitsOf n) = n"
proof (induction n rule: digitsOf.induct)
  case (1 n)
  show ?case
  proof (cases "n < 10")
    case True
    then show ?thesis
      by (simp add: digitsOf.simps [of n] digitsValue_def dec_digit_facts(1))
  next
    case False
    with "1.IH" have "digitsValue 10 (digitsOf (n div 10)) = n div 10" by simp
    with False show ?thesis
      by (simp add: digitsOf.simps [of n] digitsValue_snoc dec_digit_facts(1))
  qed
qed

lemma parseInt_digitsOf: "parseInt (digitsOf n) = Some (int n)"
proof -
  define s where "s = digitsOf n"
  have ne: "s \<noteq> []" by (simp add: s_def digitsOf_nonempty)
  have ch: "\<And>c. c \<in> set s \<Longrightarrow> \<exists>d<10. c = (48 + of_nat d)"
    unfolding s_def by (rule digitsOf_chars)
  from ne have "hd s \<in> set s" by simp
  then obtain d where d: "d < 10" "hd s = (48 + of_nat d)" using ch by blast
  have ws: "dropWhile isWhiteSpace s = s"
    using d dec_digit_facts(2) by (simp add: dropWhile_eq_self_iff)
  have sign: "hd s \<noteq> 0x2B" "hd s \<noteq> 0x2D"
    using d dec_digit_facts(3,4) by simp_all
  have nohex: "\<not> (2 \<le> length s \<and> s ! 0 = 0x30 \<and> (s ! 1 = 0x78 \<or> s ! 1 = 0x58))"
  proof
    assume h: "2 \<le> length s \<and> s ! 0 = 0x30 \<and> (s ! 1 = 0x78 \<or> s ! 1 = 0x58)"
    then have "s ! 1 \<in> set s" by simp
    then obtain d' where "d' < 10" "s ! 1 = (48 + of_nat d')" using ch by blast
    with h show False using dec_digit_facts(5,6) by metis
  qed
  have "\<And>c. c \<in> set s \<Longrightarrow> isRadixDigit 10 c"
    using ch dec_digit_facts(1) by (fastforce simp: isRadixDigit_def)
  then have tw: "takeWhile (isRadixDigit 10) s = s" by simp
  have s2: "(if s \<noteq> [] \<and> (hd s = 0x2B \<or> hd s = 0x2D) then tl s else s) = s"
    using sign by simp
  have hex: "(2 \<le> length s \<and> s ! 0 = 0x30 \<and> (s ! 1 = 0x78 \<or> s ! 1 = 0x58)) = False"
    using nohex by blast
  have "parseInt s = Some (int (digitsValue 10 s))"
    unfolding parseInt_def Let_def ws s2 hex if_False tw using ne sign by simp
  then show ?thesis by (simp add: s_def digitsValue_digitsOf)
qed

lemma parseInt_numberToString: "0 \<le> n \<Longrightarrow> parseInt (numberToString n) = Some n"
  by (simp add: numberToString_def parseInt_digitsOf)

lemma parseInt_undefined: "parseInt (toStringOpt None) = None"
  by (simp add: int_eval str_eval)

lemma parseInt_empty: "parseInt [] = None"
  by (simp add: parseInt_def)

subsection \<open>Pagination\<close>

lemma parsedToString_small: "0 \<le> n \<Longrightarrow> n < 2 ^ 53 \<Longrightarrow> parsedToString n = numberToString n"
  by (simp add: parsedToString_def unsignedToString_def numberToString_def)

lemma parsedToString_limit: "1 \<le> n \<Longrightarrow> n \<le> 100 \<Longrightarrow> parsedToString n = numberToString n"
  by (rule parsedToString_small) simp_all

lemma limitBlock_Inr:
  assumes "limitBlock q = Inr q1"
  shows "skip q1 = skip q"
    and "parseInt (toStringOpt (limit q1)) = parseInt (toStringOpt (limit q))"
    and "limit q = None \<Longrightarrow> q1 = q"
    and "limit q \<noteq> None \<Longrightarrow>
           \<exists>n. parseInt (toStringOpt (limit q)) = Some n \<and> 1 \<le> n \<and> n \<le> 100 \<and>
               q1 = q\<lparr>limit := Some (QStr (numberToString n))\<rparr>"
proof -
  have key: "(limit q = None \<and> q1 = q) \<or>
     (\<exists>n. limit q \<noteq> None \<and> parseInt (toStringOpt (limit q)) = Some n \<and> 1 \<le> n \<and> n \<le> 100 \<and>
          q1 = q\<lparr>limit := Some (QStr (numberToString n))\<rparr>)"
    using assms
    by (auto simp: limitBlock_def parsedToString_limit split: option.splits if_splits)
  from key show "skip q1 = skip q" by auto
  from key show "parseInt (toStringOpt (limit q1)) = parseInt (toStringOpt (limit q))"
    by (auto simp: toStringOpt_def parseInt_numberToString)
  from key show "limit q = None \<Longrightarrow> q1 = q" by auto
  from key show "limit q \<noteq> None \<Longrightarrow>
           \<exists>n. parseInt (toStringOpt (limit q)) = Some n \<and> 1 \<le> n \<and> n \<le> 100 \<and>
               q1 = q\<lparr>limit := Some (QStr (numberToString n))\<rparr>"
    by auto
qed

lemma skipBlock_Inr:
  assumes "skipBlock q = Inr q1"
  shows "limit q1 = limit q"
    and "orElse (parseInt (toStringOpt (skip q))) 0 < 2 ^ 53 \<Longrightarrow>
           parseInt (toStringOpt (skip q1)) = parseInt (toStringOpt (skip q))"
    and "skip q = None \<Longrightarrow> q1 = q"
    and "skip q \<noteq> None \<Longrightarrow>
           \<exists>n. parseInt (toStringOpt (skip q)) = Some n \<and> 0 \<le> n \<and>
               q1 = q\<lparr>skip := Some (QStr (parsedToString n))\<rparr>"
proof -
  have key: "(skip q = None \<and> q1 = q) \<or>
     (\<exists>n. skip q \<noteq> None \<and> parseInt (toStringOpt (skip q)) = Some n \<and> 0 \<le> n \<and>
          q1 = q\<lparr>skip := Some (QStr (parsedToString n))\<rparr>)"
    using assms
    by (auto simp: skipBlock_def split: option.splits if_splits)
  from key show "limit q1 = limit q" by auto
  from key show "skip q = None \<Longrightarrow> q1 = q" by auto
  from key show "skip q \<noteq> None \<Longrightarrow>
           \<exists>n. parseInt (toStringOpt (skip q)) = Some n \<and> 0 \<le> n \<and>
               q1 = q\<lparr>skip := Some (QStr (parsedToString n))\<rparr>"
    by auto
  show "parseInt (toStringOpt (skip q1)) = parseInt (toStringOpt (skip q))"
    if h: "orElse (parseInt (toStringOpt (skip q))) 0 < 2 ^ 53"
    using key
  proof
    assume "skip q = None \<and> q1 = q"
    then show ?thesis by simp
  next
    assume "\<exists>n. skip q \<noteq> None \<and> parseInt (toStringOpt (skip q)) = Some n \<and> 0 \<le> n \<and>
          q1 = q\<lparr>skip := Some (QStr (parsedToString n))\<rparr>"
    then obtain n where n: "parseInt (toStringOpt (skip q)) = Some n" "0 \<le> n"
      "q1 = q\<lparr>skip := Some (QStr (parsedToString n))\<rparr>"
      by blast
    from h n(1) have "n < 2 ^ 53"
      by (simp add: orElse_def split: if_splits)
    with n(2) have "parsedToString n = numberToString n"
      by (intro parsedToString_small)
    with n show ?thesis
      by (simp add: toStringOpt_def parseInt_numberToString)
  qed
qed

lemma validate_rule_order_general:
  assumes "destructure body = Some (name, price)"
    and "truthy name \<or> name = JUndefined \<or> name = JNull"
  shows "rejection (validateProductInput body) = spec_validateCreate body"
  using assms
  by (auto simp: validateProductInput_def spec_validateCreate_def rejection_def spec_rules_def
      Let_def)

lemma validate_fault:
  assumes "destructure body = None"
  shows "rejection (validateProductInput body) = spec_validateCreate body"
  using assms by (simp add: validateProductInput_def spec_validateCreate_def rejection_def)

lemma sanitize_Nil: "sanitizeString [] = []"
  by (simp add: str_eval)

lemma validate_accepts:
  assumes "destructure body = Some (name, price)"
    and "first_failure spec_rules (name, price) = None"
  shows "validateProductInput body =
           Inr (setProp (setProp body (ascii ''name'') (JStr (sanitizeString (str_of name))))
                  (ascii ''price'') (JNum (roundPrice (num_of price))))"
proof -
  from assms(2) have c: "typeof name = ''string''"
    "3 \<le> length (sanitizeString (str_of name))" "length (sanitizeString (str_of name)) \<le> 100"
    "price \<noteq> JUndefined" "price \<noteq> JNull" "typeof price = ''number''"
    "\<not> Number_isNaN (num_of price)" "\<not> js_lt (num_of price) (Fin 0)"
    "\<not> js_gt (num_of price) MAX_PRICE"
    by (simp_all add: spec_rules_def split: if_splits)
  from c(1) obtain s where s: "name = JStr s" by (cases name) simp_all
  with c(2) have "s \<noteq> []" using sanitize_Nil by auto
  with s have "truthy name" by simp
  moreover from c(2) have "sanitizeString (str_of name) \<noteq> []" by auto
  ultimately show ?thesis
    using assms(1) c by (simp add: validateProductInput_def Let_def)
qed


subsection \<open>Listing and creating products\<close>

lemma accepted_params:
  assumes "validatePaginationParams q = Inr q1"
  shows "parseInt (toStringOpt (limit q1)) = parseInt (toStringOpt (limit q))"
    and "orElse (parseInt (toStringOpt (skip q))) 0 < 2 ^ 53 \<Longrightarrow>
           parseInt (toStringOpt (skip q1)) = parseInt (toStringOpt (skip q))"
    and "1 \<le> orElse (parseInt (toStringOpt (limit q))) 100"
    and "orElse (parseInt (toStringOpt (limit q))) 100 \<le> 100"
    and "0 \<le> orElse (parseInt (toStringOpt (skip q))) 0"
proof -
  from assms obtain qa where a: "limitBlock q = Inr qa" and b: "skipBlock qa = Inr q1"
    by (auto simp: validatePaginationParams_def split: sum.splits)
  show "parseInt (toStringOpt (limit q1)) = parseInt (toStringOpt (limit q))"
    using limitBlock_Inr(2) [OF a] skipBlock_Inr(1) [OF b] by simp
  show "parseInt (toStringOpt (skip q1)) = parseInt (toStringOpt (skip q))"
    if "orElse (parseInt (toStringOpt (skip q))) 0 < 2 ^ 53"
    using that limitBlock_Inr(1) [OF a] skipBlock_Inr(2) [OF b] by simp
  show "1 \<le> orElse (parseInt (toStringOpt (limit q))) 100"
    and "orElse (parseInt (toStringOpt (limit q))) 100 \<le> 100"
    using limitBlock_Inr(4) [OF a] parseInt_undefined
    by (cases "limit q"; auto simp: orElse_def)+
  show "0 \<le> orElse (parseInt (toStringOpt (skip q))) 0"
    using skipBlock_Inr(4) [OF b] limitBlock_Inr(1) [OF a] parseInt_undefined
    by (cases "skip q"; auto simp: orElse_def)
qed

lemma sorted_desc: "sorted_wrt (\<lambda>x y. createdAt y \<le> createdAt x) (sortByCreatedAtDesc store)"
proof -
  have "sorted (map (\<lambda>p. - int (createdAt p)) (sortByCreatedAtDesc store))"
    unfolding sortByCreatedAtDesc_def by (rule sorted_sort_key)
  then show ?thesis by (simp add: sorted_map)
qed

lemma getProducts_accepted:
  assumes "validatePaginationParams q = Inr q1"
    and "orElse (parseInt (toStringOpt (skip q))) 0 < 2 ^ 53"
  shows "getProducts True store q =
           Listed (take (nat (orElse (parseInt (toStringOpt (limit q))) 100))
                     (drop (nat (orElse (parseInt (toStringOpt (skip q))) 0))
                        (sortByCreatedAtDesc store)))"
  using accepted_params(1,3,4,5) [OF assms(1)] accepted_params(2) [OF assms] assms(1)
  by (simp add: getProducts_def findProducts_def Let_def)

lemma getProducts_Listed:
  assumes "getProducts storeOk store q = Listed ps"
  shows "sorted_wrt (\<lambda>x y. createdAt y \<le> createdAt x) ps" and "length ps \<le> 100"
    and "set ps \<subseteq> set store"
proof -
  from assms obtain q1 where v: "validatePaginationParams q = Inr q1"
    by (auto simp: getProducts_def split: sum.splits)
  define l where "l = orElse (parseInt (toStringOpt (limit q))) 100"
  define s where "s = orElse (parseInt (toStringOpt (skip q1))) 0"
  from accepted_params(3,4) [OF v] have l: "1 \<le> l" "l \<le> 100"
    by (simp_all add: l_def)
  from assms v accepted_params(1) [OF v] l
  have ps: "ps = take (nat l) (drop (nat s) (sortByCreatedAtDesc store))"
    by (auto simp: getProducts_def findProducts_def Let_def l_def s_def split: if_splits)
  show "sorted_wrt (\<lambda>x y. createdAt y \<le> createdAt x) ps"
    unfolding ps by (intro sorted_wrt_take sorted_wrt_drop sorted_desc)
  show "length ps \<le> 100" using l by (simp add: ps)
  have "set ps \<subseteq> set (sortByCreatedAtDesc store)"
    unfolding ps by (meson set_take_subset set_drop_subset subset_trans)
  then show "set ps \<subseteq> set store" by (simp add: sortByCreatedAtDesc_def)
qed

lemma postProduct_Created:
  assumes "postProduct storeOk newId now store body = (Created p, store')"
  shows "store' = store @ [p]" and "createdAt p = now" and "prod_id p = newId"
    and "\<exists>b. validateProductInput body = Inr b \<and> destructure b = Some (prod_name p, prod_price p)"
  using assms
  by (auto simp: postProduct_def save_def Let_def split: sum.splits option.splits if_splits)

lemma default_query: "validatePaginationParams \<lparr>limit = None, skip = None\<rparr> = Inr \<lparr>limit = None, skip = None\<rparr>"
  by (simp add: validatePaginationParams_def limitBlock_def skipBlock_def)

lemma list_three:
  assumes "createdAt a < createdAt b" "createdAt b < createdAt c"
  shows "getProducts True [a, b, c] \<lparr>limit = None, skip = None\<rparr> = Listed [c, b, a]"
proof -
  have h: "orElse (parseInt (toStringOpt (skip \<lparr>limit = None, skip = None\<rparr>))) 0 < 2 ^ 53"
    by (simp add: parseInt_undefined orElse_def)
  show ?thesis
    using assms
    by (simp add: getProducts_accepted [OF default_query h] parseInt_undefined orElse_def
        sortByCreatedAtDesc_def)
qed

subsection \<open>Rounding to binary64\<close>

lemma lg_up_bounds: "1 \<le> q \<Longrightarrow> 2 powi (lg_up q) \<le> q \<and> q < 2 powi (lg_up q + 1)"
proof (induction q rule: lg_up.induct)
  case (1 q)
  show ?case
  proof (cases "2 \<le> q")
    case True
    then have "1 \<le> q / 2" by simp
    with "1.IH" True have ih: "2 powi (lg_up (q / 2)) \<le> q / 2" "q / 2 < 2 powi (lg_up (q / 2) + 1)"
      by simp_all
    have l: "lg_up q = lg_up (q / 2) + 1"
      using True by (simp add: lg_up.simps [of q])
    have a: "(2::rat) powi (lg_up (q / 2) + 1) = 2 powi (lg_up (q / 2)) * 2"
      by (simp add: power_int_add_1)
    have b: "(2::rat) powi (lg_up (q / 2) + 1 + 1) = 2 powi (lg_up (q / 2) + 1) * 2"
      by (rule power_int_add_1) simp
    from ih a b show ?thesis unfolding l by linarith
  next
    case False
    with "1.prems" show ?thesis by (simp add: lg_up.simps [of q])
  qed
qed

lemma lg_down_bounds:
  "0 < q \<Longrightarrow> q < 1 \<Longrightarrow> 2 powi (lg_down q) \<le> q \<and> q < 2 powi (lg_down q + 1)"
proof (induction q rule: lg_down.induct)
  case (1 q)
  have l: "lg_down q = lg_down (2 * q) - 1"
    using "1.prems" by (simp add: lg_down.simps [of q])
  show ?case
  proof (cases "2 * q < 1")
    case True
    with "1.IH" "1.prems" have ih: "2 powi (lg_down (2 * q)) \<le> 2 * q"
      "2 * q < 2 powi (lg_down (2 * q) + 1)"
      by simp_all
    have a: "(2::rat) powi (lg_down (2 * q) - 1 + 1) = 2 powi (lg_down (2 * q) - 1) * 2"
      by (rule power_int_add_1) simp
    have b: "(2::rat) powi (lg_down (2 * q) + 1) = 2 powi (lg_down (2 * q)) * 2"
      by (rule power_int_add_1) simp
    from a have a': "(2::rat) powi (lg_down (2 * q)) = 2 powi (lg_down (2 * q) - 1) * 2"
      by simp
    from ih a' b show ?thesis unfolding l by simp
  next
    case False
    then have "lg_down (2 * q) = 0" by (simp add: lg_down.simps [of "2 * q"])
    with l have "lg_down q = - 1" by simp
    with False "1.prems" show ?thesis by simp
  qed
qed

lemma ilog2_bounds: "0 < q \<Longrightarrow> 2 powi (ilog2 q) \<le> q \<and> q < 2 powi (ilog2 q + 1)"
  using lg_up_bounds [of q] lg_down_bounds [of q] by (cases "1 \<le> q") (simp_all add: ilog2_def)

lemma ilog2_less:
  assumes "0 < q" and "q < 2 powi n"
  shows "ilog2 q < n"
proof (rule ccontr)
  assume "\<not> ilog2 q < n"
  then have "n \<le> ilog2 q" by simp
  then have "(2::rat) powi n \<le> 2 powi (ilog2 q)"
    by (rule power_int_increasing) simp
  with ilog2_bounds [OF assms(1)] assms(2) show False by linarith
qed

lemma rhe_le:
  assumes "x \<le> of_int z"
  shows "round_half_even x \<le> z"
proof -
  have f: "\<lfloor>x\<rfloor> \<le> z" using assms by (simp add: floor_le_iff)
  have "\<lfloor>x\<rfloor> + 1 \<le> z" if "1 / 2 \<le> x - of_int \<lfloor>x\<rfloor>"
  proof -
    from that assms have "of_int \<lfloor>x\<rfloor> < (of_int z :: rat)" by linarith
    then have "\<lfloor>x\<rfloor> < z" by (simp only: of_int_less_iff)
    then show ?thesis by simp
  qed
  with f show ?thesis
    by (auto simp: round_half_even_def Let_def)
qed

lemma rhe_ge:
  assumes "of_int z \<le> x"
  shows "z \<le> round_half_even x"
proof -
  have "z \<le> \<lfloor>x\<rfloor>" using assms by (simp add: le_floor_iff)
  then show ?thesis by (auto simp: round_half_even_def Let_def)
qed

lemma fl_grid:
  assumes "0 < x" and "x < 2 powi (g + 53)" and "- 1074 \<le> g" and "g \<le> 970"
  shows "\<exists>r. fl x = Fin r \<and> 0 \<le> r \<and>
           (\<forall>m. x \<le> of_int m * 2 powi g \<longrightarrow> r \<le> of_int m * 2 powi g) \<and>
           (\<forall>m. of_int m * 2 powi g \<le> x \<longrightarrow> of_int m * 2 powi g \<le> r)"
proof -
  define e where "e = max (ilog2 x) (- 1022)"
  define u :: rat where "u = 2 powi (e - 52)"
  define n where "n = round_half_even (x / u)"
  define r where "r = of_int n * u"
  have upos: "0 < u" by (simp add: u_def)
  have "ilog2 x < g + 53" using assms(1,2) by (rule ilog2_less)
  with assms(3) have e: "e - 52 \<le> g" by (simp add: e_def)
  define k where "k = nat (g - (e - 52))"
  have pg: "(2::rat) powi g = u * 2 ^ k"
  proof -
    have "g = (e - 52) + int k" using e by (simp add: k_def)
    then have "(2::rat) powi g = 2 powi ((e - 52) + int k)" by simp
    also have "\<dots> = 2 powi (e - 52) * 2 powi (int k)"
      by (rule power_int_add) simp
    finally show ?thesis by (simp add: u_def)
  qed
  have grid: "of_int m * 2 powi g = of_int (m * 2 ^ k) * u" for m
    by (simp add: pg mult_ac)
  have le: "r \<le> of_int m * 2 powi g" if "x \<le> of_int m * 2 powi g" for m
  proof -
    from that upos have "x / u \<le> of_int (m * 2 ^ k)"
      by (simp only: grid pos_divide_le_eq)
    then have "n \<le> m * 2 ^ k" unfolding n_def by (rule rhe_le)
    then have "of_int n \<le> (of_int (m * 2 ^ k) :: rat)" by (simp only: of_int_le_iff)
    with upos have "of_int n * u \<le> of_int (m * 2 ^ k) * u"
      by (simp add: mult_right_mono)
    then show ?thesis by (simp only: r_def grid)
  qed
  have ge: "of_int m * 2 powi g \<le> r" if "of_int m * 2 powi g \<le> x" for m
  proof -
    from that upos have "of_int (m * 2 ^ k) \<le> x / u"
      by (simp only: grid pos_le_divide_eq)
    then have "m * 2 ^ k \<le> n" unfolding n_def by (rule rhe_ge)
    then have "(of_int (m * 2 ^ k) :: rat) \<le> of_int n" by (simp only: of_int_le_iff)
    with upos have "of_int (m * 2 ^ k) * u \<le> of_int n * u"
      by (simp add: mult_right_mono)
    then show ?thesis by (simp only: r_def grid)
  qed
  have r0: "0 \<le> r"
    using ge [of 0] assms(1) by simp
  have "(2::rat) powi (g + 53) = 2 powi g * 2 powi 53"
    by (rule power_int_add) simp
  then have top: "(2::rat) powi (g + 53) = of_int (2 ^ 53) * 2 powi g"
    by simp
  have "r \<le> of_int (2 ^ 53) * 2 powi g"
    using assms(2) by (intro le) (simp only: top)
  then have "r \<le> 2 powi (g + 53)" by (simp only: top)
  also have "\<dots> \<le> 2 powi 1023"
    using assms(4) by (intro power_int_increasing) simp_all
  also have "\<dots> < (2::rat) powi 1024"
    by (intro power_int_strict_increasing) simp_all
  finally have nov: "\<not> 2 powi 1024 \<le> r" by simp
  have "(0::rat) < 2 powi 1024" by simp
  with r0 have nov': "\<not> r \<le> - (2 powi 1024)" by linarith
  have "fl x = (if 2 powi 1024 \<le> r then PInf else if r \<le> - (2 powi 1024) then NInf else Fin r)"
    using assms(1) unfolding fl_def Let_def r_def n_def u_def e_def by simp
  with nov nov' have "fl x = Fin r" by (simp only: if_False)
  with r0 le ge show ?thesis by blast
qed

lemma MAX_PRICE_value: "MAX_PRICE = Fin (4294967253050327 / 4294967296)"
  by (simp add: num_eval)

lemma mul100:
  assumes "0 \<le> p" and "p \<le> 4294967253050327 / 4294967296"
  shows "\<exists>y. js_mul (Fin p) (Fin 100) = Fin y \<and> 0 \<le> y \<and> y \<le> 99999999 \<and>
           of_int \<lfloor>p * 100 + 1 / 2\<rfloor> - 1 / 2 \<le> y \<and> y \<le> of_int \<lfloor>p * 100 + 1 / 2\<rfloor> + 1 / 2"
proof (cases "p = 0")
  case True
  have "\<lfloor>(1::rat) / 2\<rfloor> = 0" by linarith
  with True show ?thesis by (simp add: fl_def)
next
  case False
  define x where "x = p * 100"
  define K where "K = \<lfloor>x + 1 / 2\<rfloor>"
  from False assms have x: "0 < x" "x \<le> 99999999" by (simp_all add: x_def)
  then have "x < 2 powi (- 1 + 53)" by simp
  with x(1) obtain r where r: "fl x = Fin r" "0 \<le> r"
    "\<And>m. x \<le> of_int m * 2 powi (- 1) \<Longrightarrow> r \<le> of_int m * 2 powi (- 1)"
    "\<And>m. of_int m * 2 powi (- 1) \<le> x \<Longrightarrow> of_int m * 2 powi (- 1) \<le> r"
    using fl_grid [of x "- 1"] by auto
  have h: "of_int m * 2 powi (- 1) = (of_int m :: rat) / 2" for m
    by simp
  have k1: "of_int K \<le> x + 1 / 2" and k2: "x + 1 / 2 < of_int K + 1"
    unfolding K_def by linarith+
  have "of_int (2 * K - 1) * 2 powi (- 1) \<le> x" using k1 by (simp add: h)
  then have lo: "of_int K - 1 / 2 \<le> r" using r(4) [of "2 * K - 1"] by (simp add: h)
  have "x \<le> of_int (2 * K + 1) * 2 powi (- 1)" using k2 by (simp add: h)
  then have hi: "r \<le> of_int K + 1 / 2" using r(3) [of "2 * K + 1"] by (simp add: h)
  have "x \<le> of_int (2 * 99999999) * 2 powi (- 1)" using x(2) by simp
  then have top: "r \<le> 99999999" using r(3) [of "2 * 99999999"] by simp
  from r(1,2) lo hi top show ?thesis
    by (simp add: x_def K_def)
qed

lemma cents:
  assumes "0 \<le> k" and "k \<le> 99999999"
  shows "\<exists>r. fl (of_int k / 100) = Fin r \<and> 0 \<le> r \<and> r \<le> 4294967253050327 / 4294967296"
proof -
  consider "k = 0" | "k = 99999999" | "0 < k" "k \<le> 99999998" using assms by linarith
  then show ?thesis
  proof cases
    case 1
    then show ?thesis by (simp add: fl_def)
  next
    case 2
    then have "fl (of_int k / 100) = Fin (4294967253050327 / 4294967296)"
      by (simp add: num_eval)
    then show ?thesis by (intro exI [of _ "4294967253050327 / 4294967296"]) simp
  next
    case 3
    define x :: rat where "x = of_int k / 100"
    from 3 have x: "0 < x" "x \<le> 99999998 / 100" by (simp_all add: x_def)
    then have "x < 2 powi (- 32 + 53)" by simp
    with x(1) obtain r where r: "fl x = Fin r" "0 \<le> r"
      "\<And>m. x \<le> of_int m * 2 powi (- 32) \<Longrightarrow> r \<le> of_int m * 2 powi (- 32)"
      using fl_grid [of x "- 32"] by auto
    have "x \<le> of_int 4294967253050327 * 2 powi (- 32)" using x(2) by simp
    then have "r \<le> of_int 4294967253050327 * 2 powi (- 32)" by (rule r(3))
    then have "r \<le> 4294967253050327 / 4294967296" by simp
    with r(1,2) show ?thesis by (auto simp: x_def)
  qed
qed

lemma roundPrice_accepted:
  assumes "0 \<le> p" and "p \<le> 4294967253050327 / 4294967296"
  shows "\<exists>y k r. fl (p * 100) = Fin y \<and> k = \<lfloor>y + 1 / 2\<rfloor> \<and>
           roundPrice (Fin p) = Fin r \<and> fl (of_int k / 100) = Fin r \<and>
           \<lfloor>p * 100 + 1 / 2\<rfloor> \<le> k \<and> k \<le> \<lfloor>p * 100 + 1 / 2\<rfloor> + 1 \<and>
           0 \<le> k \<and> k \<le> 99999999 \<and>
           0 \<le> r \<and> r \<le> 4294967253050327 / 4294967296"
proof -
  from mul100 [OF assms] obtain y where y: "js_mul (Fin p) (Fin 100) = Fin y" "0 \<le> y"
    "y \<le> 99999999" "of_int \<lfloor>p * 100 + 1 / 2\<rfloor> - 1 / 2 \<le> y"
    "y \<le> of_int \<lfloor>p * 100 + 1 / 2\<rfloor> + 1 / 2"
    by blast
  define k where "k = \<lfloor>y + 1 / 2\<rfloor>"
  have k: "0 \<le> k" "k \<le> 99999999" "\<lfloor>p * 100 + 1 / 2\<rfloor> \<le> k" "k \<le> \<lfloor>p * 100 + 1 / 2\<rfloor> + 1"
    using y(2-5) unfolding k_def by linarith+
  from cents [OF k(1,2)] obtain r where r: "fl (of_int k / 100) = Fin r" "0 \<le> r"
    "r \<le> 4294967253050327 / 4294967296"
    by blast
  from y(1) have f: "fl (p * 100) = Fin y" by simp
  then have "roundPrice (Fin p) = Fin r"
    by (simp add: roundPrice_def Math_round_def k_def [symmetric] r(1))
  with f r k show ?thesis unfolding k_def by blast
qed

subsection \<open>Accepted bodies\<close>

lemma name_price_keys: "ascii ''name'' \<noteq> ascii ''price''"
  by (simp add: ascii_def)

lemma validate_Inr:
  assumes "validateProductInput body = Inr body'"
  shows "\<exists>kvs s p. body = JObj kvs \<and> destructure body = Some (JStr s, JNum (Fin p)) \<and>
           3 \<le> length (sanitizeString s) \<and> length (sanitizeString s) \<le> 100 \<and>
           0 \<le> p \<and> p \<le> 4294967253050327 / 4294967296 \<and>
           body' = setProp (setProp body (ascii ''name'') (JStr (sanitizeString s)))
                     (ascii ''price'') (JNum (roundPrice (Fin p)))"
proof -
  from assms obtain name price where d: "destructure body = Some (name, price)"
    by (auto simp: validateProductInput_def split: option.splits)
  from assms d have c: "truthy name" "typeof name = ''string''"
    "3 \<le> length (sanitizeString (str_of name))" "length (sanitizeString (str_of name)) \<le> 100"
    "typeof price = ''number''" "\<not> Number_isNaN (num_of price)"
    "\<not> js_lt (num_of price) (Fin 0)" "\<not> js_gt (num_of price) MAX_PRICE"
    and b: "body' = setProp (setProp body (ascii ''name'') (JStr (sanitizeString (str_of name))))
                     (ascii ''price'') (JNum (roundPrice (num_of price)))"
    by (simp_all add: validateProductInput_def Let_def split: if_splits)
  from c(2) obtain s where s: "name = JStr s" by (cases name) simp_all
  from c(5) obtain n where n: "price = JNum n" by (cases price) simp_all
  from c(6,7,8) n obtain p where p: "n = Fin p" "0 \<le> p" "p \<le> 4294967253050327 / 4294967296"
    by (cases n) (simp_all add: Number_isNaN_def js_gt_def MAX_PRICE_value)
  from d s obtain kvs where k: "body = JObj kvs"
    by (cases body) (simp_all add: destructure_def)
  from d s n p c b k show ?thesis by simp
qed

lemma destructure_set [simp]:
  "destructure (JObj (AList.update (ascii ''price'') v2 (AList.update (ascii ''name'') v1 kvs)))
     = Some (v1, v2)"
  using name_price_keys by (simp add: destructure_def update_conv')

lemma revalidate_iff:
  assumes "s = sanitizeString s0" and "3 \<le> length s" and "length s \<le> 100"
    and "0 \<le> r" and "r \<le> 4294967253050327 / 4294967296"
    and "destructure body = Some (JStr s, JNum (Fin r))"
  shows "rejection (validateProductInput body) = None \<longleftrightarrow> 3 \<le> length (trim s)"
proof -
  have st: "sanitizeString s = trim s"
    unfolding assms(1) by (rule sanitize_twice)
  have le: "length (trim s) \<le> 100"
    using length_trim [of s] assms(3) by linarith
  from assms(2) have ne: "s \<noteq> []" by auto
  show ?thesis
  proof (cases "3 \<le> length (trim s)")
    case True
    then have "trim s \<noteq> []" by auto
    with True le ne assms(4,5,6) show ?thesis
      by (simp add: validateProductInput_def rejection_def Number_isNaN_def js_gt_def
          MAX_PRICE_value Let_def st)
  next
    case False
    with ne assms(6) show ?thesis
      by (simp add: validateProductInput_def rejection_def Let_def st)
  qed
qed

section \<open>The sanitizer: safety and idempotence\<close>

text \<open>
  C7. For every string \<open>x\<close>, \<open>sanitizeString x\<close> is defined (the function is total and
  deterministic), holds none of the characters \<open><\<close>, \<open>>\<close>, single quote and double
  quote, and has at most 255 code units.
\<close>

theorem sanitize_safe_and_bounded:
  "(\<exists>y. sanitizeString x = y) \<and>
   0x3C \<notin> set (sanitizeString x) \<and> 0x3E \<notin> set (sanitizeString x) \<and>
   0x27 \<notin> set (sanitizeString x) \<and> 0x22 \<notin> set (sanitizeString x) \<and>
   length (sanitizeString x) \<le> 255"
  using sanitize_no_angle [of _ x] sanitize_no_quote [of _ x] length_sanitize [of x]
  by (auto simp: isAngle_def isQuote_def)

text \<open>
  C2 as stated fails: stripping an angle bracket can uncover white space that the
  earlier trim has not seen. \<open>sanitize("< a")\<close> is \<open>" a"\<close>, and sanitizing that gives \<open>"a"\<close>.
\<close>

theorem sanitize_not_idempotent:
  "sanitizeString (sanitizeString (ascii ''< a'')) \<noteq> sanitizeString (ascii ''< a'')"
  by (simp add: str_eval)

text \<open>
  C2, amended. For every string \<open>x\<close>, \<open>sanitize(sanitize(x))\<close> equals \<open>sanitize(x)\<close> exactly
  when \<open>sanitize(x)\<close> has no leading and no trailing white space; this is so whenever
  \<open>x\<close> holds none of the stripped characters and its trimmed form has at most 255 code
  units.
\<close>

theorem sanitize_idempotent_when_trimmed:
  "(sanitizeString (sanitizeString x) = sanitizeString x \<longleftrightarrow> isTrimmed (sanitizeString x)) \<and>
   ((\<forall>c \<in> set x. \<not> isAngle c \<and> \<not> isQuote c) \<and> length (trim x) \<le> 255 \<longrightarrow>
      sanitizeString (sanitizeString x) = sanitizeString x)"
proof (intro conjI impI)
  show "sanitizeString (sanitizeString x) = sanitizeString x \<longleftrightarrow> isTrimmed (sanitizeString x)"
    by (simp add: sanitize_twice trim_eq_iff)
next
  assume h: "(\<forall>c \<in> set x. \<not> isAngle c \<and> \<not> isQuote c) \<and> length (trim x) \<le> 255"
  then have "\<And>c. c \<in> set (trim x) \<Longrightarrow> \<not> isAngle c" "\<And>c. c \<in> set (trim x) \<Longrightarrow> \<not> isQuote c"
    using set_trim [of x] by blast+
  with h have "sanitizeString x = trim x"
    by (simp add: sanitizeString_def removeAll_id substring0_def)
  then have "isTrimmed (sanitizeString x)"
    by (simp add: isTrimmed_trim)
  then have "trim (sanitizeString x) = sanitizeString x"
    by (rule trim_id)
  then show "sanitizeString (sanitizeString x) = sanitizeString x"
    by (simp only: sanitize_twice)
qed

theorem sanitize_idempotent_when_trimmed_witness:
  "sanitizeString (sanitizeString (ascii ''  Laptop '')) = sanitizeString (ascii ''  Laptop '') \<and>
   sanitizeString (ascii ''  Laptop '') = ascii ''Laptop''"
proof -
  have h: "(\<forall>c \<in> set (ascii ''  Laptop ''). \<not> isAngle c \<and> \<not> isQuote c) \<and>
           length (trim (ascii ''  Laptop '')) \<le> 255"
    by (simp add: str_eval)
  have "sanitizeString (sanitizeString (ascii ''  Laptop '')) = sanitizeString (ascii ''  Laptop '')"
    using sanitize_idempotent_when_trimmed [of "ascii ''  Laptop ''"] h by blast
  moreover have "sanitizeString (ascii ''  Laptop '') = ascii ''Laptop''"
    by (simp add: str_eval)
  ultimately show ?thesis by simp
qed

section \<open>The product validation: falsy names\<close>

text \<open>
  C10. For every request body whose \<open>name\<close> is the empty string, or any other falsy value
  such as 0 or false, \<open>validateProductInput\<close> rejects with the message that the name is
  required: the presence check takes every falsy name as absent, so such a name reaches
  neither the string rule nor the rule for an empty name.
\<close>

theorem falsy_name_is_required:
  assumes "destructure body = Some (name, price)"
    and "name = JStr [] \<or> name = JNum (Fin 0) \<or> name = JBool False \<or> \<not> truthy name"
  shows "validateProductInput body = Inl (reject 400 ''Product name is required'')"
proof -
  from assms(2) have "\<not> truthy name" by auto
  with assms(1) show ?thesis by (simp add: validateProductInput_def)
qed

theorem falsy_name_is_required_witness:
  "validateProductInput (JObj [(ascii ''name'', JStr []), (ascii ''price'', JNum (Fin 5))])
     = Inl (reject 400 ''Product name is required'')"
proof -
  have "destructure (JObj [(ascii ''name'', JStr []), (ascii ''price'', JNum (Fin 5))])
          = Some (JStr [], JNum (Fin 5))"
    by (simp add: destructure_def ascii_def)
  then show ?thesis
    by (rule falsy_name_is_required) simp
qed

section \<open>The health endpoint: both variants\<close>

text \<open>
  C4. The strict health handler answers 200 with \<open>ok: true\<close> exactly when the store
  connection is Connected (\<open>readyState\<close> 1) and 503 with \<open>ok: false\<close> in every other
  state, Connecting included; the optimistic handler answers 200 with \<open>ok: true\<close>
  whatever the state.
\<close>

theorem health_variants:
  "(http_status (healthStrict now (readyState st)) = 200 \<and> ok (healthStrict now (readyState st))
      \<longleftrightarrow> st = Connected) \<and>
   (st \<noteq> Connected \<longrightarrow>
      http_status (healthStrict now (readyState st)) = 503 \<and> \<not> ok (healthStrict now (readyState st))) \<and>
   http_status (healthStrict now rs) = (if rs = 1 then 200 else 503) \<and>
   ok (healthStrict now rs) = (rs = 1) \<and>
   http_status (healthOptimistic rs) = 200 \<and> ok (healthOptimistic rs) \<and>
   http_status (healthOptimistic (readyState st)) = 200 \<and> ok (healthOptimistic (readyState st))"
  by (cases st) (simp_all add: healthStrict_def healthOptimistic_def)

theorem health_variants_witness:
  "http_status (healthStrict ''2025-01-01T00:00:00.000Z'' (readyState Connecting)) = 503 \<and>
   \<not> ok (healthStrict ''2025-01-01T00:00:00.000Z'' (readyState Connecting)) \<and>
   http_status (healthOptimistic (readyState Connecting)) = 200 \<and>
   ok (healthOptimistic (readyState Connecting))"
  using health_variants [of "''2025-01-01T00:00:00.000Z''" Connecting 2] by simp

section \<open>The product validation: order of the rules\<close>

text \<open>
  C3 as stated fails on rule 1. The code tests \<open>!name\<close>, so a name that is present but
  falsy is answered with the name-required message, where the rules of the specification
  pass rule 1 and fail later: the empty string at rule 3 (cannot be empty), the number 0
  at rule 2 (must be a string).
\<close>

theorem rule_order_differs_on_falsy_name:
  "rejection (validateProductInput
      (JObj [(ascii ''name'', JStr []), (ascii ''price'', JNum (Fin 1))]))
     = Some (reject 400 ''Product name is required'') \<and>
   spec_validateCreate (JObj [(ascii ''name'', JStr []), (ascii ''price'', JNum (Fin 1))])
     = Some (reject 400 ''Product name cannot be empty'') \<and>
   rejection (validateProductInput
      (JObj [(ascii ''name'', JNum (Fin 0)), (ascii ''price'', JNum (Fin 1))]))
     = Some (reject 400 ''Product name is required'') \<and>
   spec_validateCreate (JObj [(ascii ''name'', JNum (Fin 0)), (ascii ''price'', JNum (Fin 1))])
     = Some (reject 400 ''Product name must be a string'')"
  by (simp add: validateProductInput_def spec_validateCreate_def rejection_def spec_rules_def
      destructure_def reject_def str_eval)

text \<open>
  C3, amended. \<open>validateProductInput\<close> evaluates the rules of the specification in its
  order, the first failing rule decides the rejection and its message, and when no rule
  fails the body is accepted with the sanitized name and the rounded price in place of
  the caller's; except that rule 1 is the test \<open>!name\<close>: a name that is present but falsy
  (the empty string, 0, NaN, false) is rejected with the name-required message. In
  particular a body with name \<open>AB\<close> is rejected as too short, name \<open>ABC\<close> passes the
  name rules, price \<open>-1\<close> is rejected as negative, price \<open>999999.99\<close> is accepted and
  price \<open>1000000.00\<close> is rejected as above the maximum.
\<close>

theorem validate_rule_order:
  "(destructure body = Some (name, price) \<and> (truthy name \<or> name = JUndefined \<or> name = JNull)
      \<longrightarrow> rejection (validateProductInput body) = spec_validateCreate body) \<and>
   (destructure body = Some (name, price) \<and> \<not> truthy name
      \<longrightarrow> validateProductInput body = Inl (reject 400 ''Product name is required'')) \<and>
   (destructure body = None
      \<longrightarrow> rejection (validateProductInput body) = spec_validateCreate body) \<and>
   (destructure body = Some (name, price) \<and> first_failure spec_rules (name, price) = None
      \<longrightarrow> validateProductInput body =
            Inr (setProp (setProp body (ascii ''name'') (JStr (sanitizeString (str_of name))))
                   (ascii ''price'') (JNum (roundPrice (num_of price))))) \<and>
   validateProductInput (JObj [(ascii ''name'', JStr (ascii ''AB'')), (ascii ''price'', pr)])
     = Inl (reject 400 ''Product name must be at least 3 characters'') \<and>
   first_failure (take 4 spec_rules) (JStr (ascii ''ABC''), pr) = None \<and>
   validateProductInput
       (JObj [(ascii ''name'', JStr (ascii ''ABC'')), (ascii ''price'', JNum (fl (- 1)))])
     = Inl (reject 400 ''Product price must be non-negative'') \<and>
   validateProductInput
       (JObj [(ascii ''name'', JStr (ascii ''ABC'')), (ascii ''price'', JNum (fl (99999999 / 100)))])
     = Inr (JObj [(ascii ''name'', JStr (ascii ''ABC'')),
                  (ascii ''price'', JNum (fl (99999999 / 100)))]) \<and>
   validateProductInput
       (JObj [(ascii ''name'', JStr (ascii ''ABC'')), (ascii ''price'', JNum (fl 1000000))])
     = Inl (reject 400 ''Product price exceeds maximum allowed value'')"
proof (intro conjI impI)
  assume "destructure body = Some (name, price) \<and> (truthy name \<or> name = JUndefined \<or> name = JNull)"
  then show "rejection (validateProductInput body) = spec_validateCreate body"
    using validate_rule_order_general by blast
next
  assume "destructure body = Some (name, price) \<and> \<not> truthy name"
  then show "validateProductInput body = Inl (reject 400 ''Product name is required'')"
    by (simp add: validateProductInput_def)
next
  assume "destructure body = None"
  then show "rejection (validateProductInput body) = spec_validateCreate body"
    by (rule validate_fault)
next
  assume "destructure body = Some (name, price) \<and> first_failure spec_rules (name, price) = None"
  then show "validateProductInput body =
            Inr (setProp (setProp body (ascii ''name'') (JStr (sanitizeString (str_of name))))
                   (ascii ''price'') (JNum (roundPrice (num_of price))))"
    using validate_accepts by blast
next
  show "validateProductInput (JObj [(ascii ''name'', JStr (ascii ''AB'')), (ascii ''price'', pr)])
     = Inl (reject 400 ''Product name must be at least 3 characters'')"
    by (simp add: validateProductInput_def destructure_def str_eval)
  show "first_failure (take 4 spec_rules) (JStr (ascii ''ABC''), pr) = None"
    by (simp add: spec_rules_def str_eval)
  show "validateProductInput
       (JObj [(ascii ''name'', JStr (ascii ''ABC'')), (ascii ''price'', JNum (fl (- 1)))])
     = Inl (reject 400 ''Product price must be non-negative'')"
    by (simp add: validateProductInput_def destructure_def str_eval num_eval)
  show "validateProductInput
       (JObj [(ascii ''name'', JStr (ascii ''ABC'')), (ascii ''price'', JNum (fl (99999999 / 100)))])
     = Inr (JObj [(ascii ''name'', JStr (ascii ''ABC'')),
                  (ascii ''price'', JNum (fl (99999999 / 100)))])"
    by (simp add: validateProductInput_def destructure_def str_eval num_eval)
  show "validateProductInput
       (JObj [(ascii ''name'', JStr (ascii ''ABC'')), (ascii ''price'', JNum (fl 1000000))])
     = Inl (reject 400 ''Product price exceeds maximum allowed value'')"
    by (simp add: validateProductInput_def destructure_def str_eval num_eval)
qed

theorem validate_rule_order_witness:
  "spec_validateCreate
      (JObj [(ascii ''name'', JStr (ascii ''ABC'')), (ascii ''price'', JNum (Fin (- 1)))])
     = Some (reject 400 ''Product price must be non-negative'') \<and>
   validateProductInput (JObj [(ascii ''name'', JBool False), (ascii ''price'', JNum (Fin 1))])
     = Inl (reject 400 ''Product name is required'') \<and>
   spec_validateCreate JNull = Some (reject 400 ''Invalid request data'') \<and>
   validateProductInput
      (JObj [(ascii ''name'', JStr (ascii '' Desk '')), (ascii ''price'', JNum (Fin 12))])
     = Inr (JObj [(ascii ''name'', JStr (ascii ''Desk'')), (ascii ''price'', JNum (Fin 12))])"
proof -
  define b1 where "b1 = JObj [(ascii ''name'', JStr (ascii ''ABC'')), (ascii ''price'', JNum (Fin (- 1)))]"
  define b2 where "b2 = JObj [(ascii ''name'', JBool False), (ascii ''price'', JNum (Fin 1))]"
  define b4 where "b4 = JObj [(ascii ''name'', JStr (ascii '' Desk '')), (ascii ''price'', JNum (Fin 12))]"
  have d1: "destructure b1 = Some (JStr (ascii ''ABC''), JNum (Fin (- 1)))"
    by (simp add: b1_def destructure_def ascii_def)
  have v1: "validateProductInput b1 = Inl (reject 400 ''Product price must be non-negative'')"
    by (simp add: b1_def validateProductInput_def destructure_def str_eval num_eval)
  have t1: "truthy (JStr (ascii ''ABC''))" by (simp add: ascii_def)
  have 1: "spec_validateCreate b1 = Some (reject 400 ''Product price must be non-negative'')"
    using validate_rule_order [of b1 "JStr (ascii ''ABC'')" "JNum (Fin (- 1))"] d1 t1 v1
    by (simp add: rejection_def)
  have d2: "destructure b2 = Some (JBool False, JNum (Fin 1))"
    by (simp add: b2_def destructure_def ascii_def)
  have 2: "validateProductInput b2 = Inl (reject 400 ''Product name is required'')"
    using validate_rule_order [of b2 "JBool False" "JNum (Fin 1)"] d2 by simp
  have d3: "destructure JNull = None" by (simp add: destructure_def)
  have v3: "validateProductInput JNull = Inl (reject 400 ''Invalid request data'')"
    by (simp add: validateProductInput_def destructure_def)
  have 3: "spec_validateCreate JNull = Some (reject 400 ''Invalid request data'')"
    using validate_rule_order [of JNull] d3 v3 by (simp add: rejection_def)
  have d4: "destructure b4 = Some (JStr (ascii '' Desk ''), JNum (Fin 12))"
    by (simp add: b4_def destructure_def ascii_def)
  have f4: "first_failure spec_rules (JStr (ascii '' Desk ''), JNum (Fin 12)) = None"
    by (simp add: spec_rules_def str_eval num_eval)
  have "validateProductInput b4 =
          Inr (setProp (setProp b4 (ascii ''name'')
                 (JStr (sanitizeString (str_of (JStr (ascii '' Desk ''))))))
               (ascii ''price'') (JNum (roundPrice (num_of (JNum (Fin 12))))))"
    using validate_rule_order [of b4 "JStr (ascii '' Desk '')" "JNum (Fin 12)"] d4 f4 by blast
  then have 4: "validateProductInput b4
     = Inr (JObj [(ascii ''name'', JStr (ascii ''Desk'')), (ascii ''price'', JNum (Fin 12))])"
    by (simp add: b4_def str_eval num_eval)
  from 1 2 3 4 show ?thesis by (simp add: b1_def b2_def b4_def)
qed

section \<open>The pagination middleware\<close>

text \<open>
  C6 as stated fails: \<open>parseInt\<close> reads the leading digits and ignores what follows,
  so the non-numeric value \<open>12abc\<close> is accepted, as 12.
\<close>

theorem pagination_accepts_prefix:
  "validatePaginationParams \<lparr>limit = Some (QStr (ascii ''12abc'')), skip = None\<rparr>
     = Inr \<lparr>limit = Some (QStr (ascii ''12'')), skip = None\<rparr>"
  by (simp add: validatePaginationParams_def limitBlock_def skipBlock_def int_eval str_eval)

text \<open>
  C6, amended. \<open>validatePaginationParams\<close> rejects every \<open>limit\<close> or \<open>skip\<close> value in which
  \<open>parseInt\<close> finds no leading integer, or finds one out of range (limit below 1 or
  above 100) or negative (skip), and it never clamps or defaults: an accepted value is
  replaced by the decimal form of the integer read (an integer below \<open>2^53\<close>, which a
  Number holds exactly), an absent one stays absent. In particular limit 0 and limit 101
  are rejected with 400 and limit 100 is accepted.
\<close>

theorem pagination_rejects:
  "(limit q = Some l \<and>
      (parseInt (qsToString l) = None \<or> (\<exists>n. parseInt (qsToString l) = Some n \<and> (n < 1 \<or> 100 < n)))
     \<longrightarrow> validatePaginationParams q
           = Inl (reject 400 ''Invalid limit parameter. Must be between 1 and 100'')) \<and>
   ((limit q = None \<or> (\<exists>l n. limit q = Some l \<and> parseInt (qsToString l) = Some n \<and> 1 \<le> n \<and> n \<le> 100)) \<and>
      skip q = Some s \<and>
      (parseInt (qsToString s) = None \<or> (\<exists>n. parseInt (qsToString s) = Some n \<and> n < 0))
     \<longrightarrow> validatePaginationParams q
           = Inl (reject 400 ''Invalid skip parameter. Must be non-negative'')) \<and>
   (validatePaginationParams q = Inr q'
     \<longrightarrow> (case limit q of
            None \<Rightarrow> limit q' = None
          | Some l \<Rightarrow> \<exists>n. parseInt (qsToString l) = Some n \<and> 1 \<le> n \<and> n \<le> 100 \<and>
                       limit q' = Some (QStr (numberToString n))) \<and>
         (case skip q of
            None \<Rightarrow> skip q' = None
          | Some s \<Rightarrow> \<exists>n. parseInt (qsToString s) = Some n \<and> 0 \<le> n \<and>
                       (n < 2 ^ 53 \<longrightarrow> skip q' = Some (QStr (numberToString n))))) \<and>
   validatePaginationParams \<lparr>limit = Some (QStr (ascii ''0'')), skip = sk\<rparr>
     = Inl (reject 400 ''Invalid limit parameter. Must be between 1 and 100'') \<and>
   validatePaginationParams \<lparr>limit = Some (QStr (ascii ''101'')), skip = sk\<rparr>
     = Inl (reject 400 ''Invalid limit parameter. Must be between 1 and 100'') \<and>
   validatePaginationParams \<lparr>limit = Some (QStr (ascii ''100'')), skip = None\<rparr>
     = Inr \<lparr>limit = Some (QStr (ascii ''100'')), skip = None\<rparr>"
proof (intro conjI impI)
  assume "limit q = Some l \<and>
      (parseInt (qsToString l) = None \<or> (\<exists>n. parseInt (qsToString l) = Some n \<and> (n < 1 \<or> 100 < n)))"
  then show "validatePaginationParams q
           = Inl (reject 400 ''Invalid limit parameter. Must be between 1 and 100'')"
    by (auto simp: validatePaginationParams_def limitBlock_def toStringOpt_def)
next
  assume "(limit q = None \<or> (\<exists>l n. limit q = Some l \<and> parseInt (qsToString l) = Some n \<and> 1 \<le> n \<and> n \<le> 100)) \<and>
      skip q = Some s \<and>
      (parseInt (qsToString s) = None \<or> (\<exists>n. parseInt (qsToString s) = Some n \<and> n < 0))"
  then show "validatePaginationParams q
           = Inl (reject 400 ''Invalid skip parameter. Must be non-negative'')"
    by (auto simp: validatePaginationParams_def limitBlock_def skipBlock_def toStringOpt_def)
next
  assume v: "validatePaginationParams q = Inr q'"
  then obtain qa where a: "limitBlock q = Inr qa" and b: "skipBlock qa = Inr q'"
    by (auto simp: validatePaginationParams_def split: sum.splits)
  show "case limit q of
            None \<Rightarrow> limit q' = None
          | Some l \<Rightarrow> \<exists>n. parseInt (qsToString l) = Some n \<and> 1 \<le> n \<and> n \<le> 100 \<and>
                       limit q' = Some (QStr (numberToString n))"
    using limitBlock_Inr(3,4) [OF a] skipBlock_Inr(1) [OF b]
    by (cases "limit q") (auto simp: toStringOpt_def)
  show "case skip q of
            None \<Rightarrow> skip q' = None
          | Some s \<Rightarrow> \<exists>n. parseInt (qsToString s) = Some n \<and> 0 \<le> n \<and>
                       (n < 2 ^ 53 \<longrightarrow> skip q' = Some (QStr (numberToString n)))"
    using limitBlock_Inr(1) [OF a] skipBlock_Inr(3,4) [OF b]
    by (cases "skip q") (auto simp: toStringOpt_def parsedToString_small)
next
  show "validatePaginationParams \<lparr>limit = Some (QStr (ascii ''0'')), skip = sk\<rparr>
     = Inl (reject 400 ''Invalid limit parameter. Must be between 1 and 100'')"
    by (simp add: validatePaginationParams_def limitBlock_def int_eval str_eval)
  show "validatePaginationParams \<lparr>limit = Some (QStr (ascii ''101'')), skip = sk\<rparr>
     = Inl (reject 400 ''Invalid limit parameter. Must be between 1 and 100'')"
    by (simp add: validatePaginationParams_def limitBlock_def int_eval str_eval)
  show "validatePaginationParams \<lparr>limit = Some (QStr (ascii ''100'')), skip = None\<rparr>
     = Inr \<lparr>limit = Some (QStr (ascii ''100'')), skip = None\<rparr>"
    by (simp add: validatePaginationParams_def limitBlock_def skipBlock_def int_eval str_eval)
qed

theorem pagination_rejects_witness:
  "validatePaginationParams \<lparr>limit = Some (QStr (ascii ''abc'')), skip = None\<rparr>
     = Inl (reject 400 ''Invalid limit parameter. Must be between 1 and 100'') \<and>
   validatePaginationParams \<lparr>limit = None, skip = Some (QStr (ascii ''-1''))\<rparr>
     = Inl (reject 400 ''Invalid skip parameter. Must be non-negative'') \<and>
   (\<exists>n. parseInt (ascii ''7'') = Some n \<and> 1 \<le> n \<and> n \<le> 100 \<and>
        ascii ''7'' = numberToString n)"
proof -
  have p1: "parseInt (qsToString (QStr (ascii ''abc''))) = None"
    by (simp add: int_eval str_eval)
  have p2: "parseInt (qsToString (QStr (ascii ''-1''))) = Some (- 1)"
    by (simp add: int_eval str_eval)
  have 1: "validatePaginationParams \<lparr>limit = Some (QStr (ascii ''abc'')), skip = None\<rparr>
     = Inl (reject 400 ''Invalid limit parameter. Must be between 1 and 100'')"
    using pagination_rejects [of "\<lparr>limit = Some (QStr (ascii ''abc'')), skip = None\<rparr>"
        "QStr (ascii ''abc'')"] p1 by simp
  have 2: "validatePaginationParams \<lparr>limit = None, skip = Some (QStr (ascii ''-1''))\<rparr>
     = Inl (reject 400 ''Invalid skip parameter. Must be non-negative'')"
    using pagination_rejects [of "\<lparr>limit = None, skip = Some (QStr (ascii ''-1''))\<rparr>" _
        "QStr (ascii ''-1'')"] p2 by simp
  have v: "validatePaginationParams \<lparr>limit = Some (QStr (ascii ''7'')), skip = Some (QStr (ascii ''3''))\<rparr>
     = Inr \<lparr>limit = Some (QStr (ascii ''7'')), skip = Some (QStr (ascii ''3''))\<rparr>"
    by (simp add: validatePaginationParams_def limitBlock_def skipBlock_def int_eval str_eval)
  have 3: "\<exists>n. parseInt (ascii ''7'') = Some n \<and> 1 \<le> n \<and> n \<le> 100 \<and>
        ascii ''7'' = numberToString n"
    using pagination_rejects
      [where q = "\<lparr>limit = Some (QStr (ascii ''7'')), skip = Some (QStr (ascii ''3''))\<rparr>"
         and q' = "\<lparr>limit = Some (QStr (ascii ''7'')), skip = Some (QStr (ascii ''3''))\<rparr>"] v
    by simp
  from 1 2 3 show ?thesis by simp
qed

section \<open>Listing products\<close>

text \<open>
  C9 as stated fails. Three products created one after the other with the same creation
  time are listed in the order of their creation, \<open>[A, B, C]\<close>: the order is by
  \<open>createdAt\<close> only. And a skip of 23 nines skips one entry: the middleware rewrites the
  parameter to the string form of the Number read, \<open>1e+23\<close>, in which the route reads 1.
\<close>

theorem list_order_and_skip_fail:
  "postProduct True 1 1000 []
      (JObj [(ascii ''name'', JStr (ascii ''Apple'')), (ascii ''price'', JNum (Fin 1))])
     = (Created \<lparr>prod_id = 1, prod_name = JStr (ascii ''Apple''), prod_price = JNum (Fin 1),
                 createdAt = 1000\<rparr>,
        [\<lparr>prod_id = 1, prod_name = JStr (ascii ''Apple''), prod_price = JNum (Fin 1),
          createdAt = 1000\<rparr>]) \<and>
   postProduct True 2 1000
      [\<lparr>prod_id = 1, prod_name = JStr (ascii ''Apple''), prod_price = JNum (Fin 1),
        createdAt = 1000\<rparr>]
      (JObj [(ascii ''name'', JStr (ascii ''Berry'')), (ascii ''price'', JNum (Fin 2))])
     = (Created \<lparr>prod_id = 2, prod_name = JStr (ascii ''Berry''), prod_price = JNum (Fin 2),
                 createdAt = 1000\<rparr>,
        [\<lparr>prod_id = 1, prod_name = JStr (ascii ''Apple''), prod_price = JNum (Fin 1),
          createdAt = 1000\<rparr>,
         \<lparr>prod_id = 2, prod_name = JStr (ascii ''Berry''), prod_price = JNum (Fin 2),
          createdAt = 1000\<rparr>]) \<and>
   postProduct True 3 1000
      [\<lparr>prod_id = 1, prod_name = JStr (ascii ''Apple''), prod_price = JNum (Fin 1),
        createdAt = 1000\<rparr>,
       \<lparr>prod_id = 2, prod_name = JStr (ascii ''Berry''), prod_price = JNum (Fin 2),
        createdAt = 1000\<rparr>]
      (JObj [(ascii ''name'', JStr (ascii ''Cherry'')), (ascii ''price'', JNum (Fin 3))])
     = (Created \<lparr>prod_id = 3, prod_name = JStr (ascii ''Cherry''), prod_price = JNum (Fin 3),
                 createdAt = 1000\<rparr>,
        [\<lparr>prod_id = 1, prod_name = JStr (ascii ''Apple''), prod_price = JNum (Fin 1),
          createdAt = 1000\<rparr>,
         \<lparr>prod_id = 2, prod_name = JStr (ascii ''Berry''), prod_price = JNum (Fin 2),
          createdAt = 1000\<rparr>,
         \<lparr>prod_id = 3, prod_name = JStr (ascii ''Cherry''), prod_price = JNum (Fin 3),
          createdAt = 1000\<rparr>]) \<and>
   getProducts True
      [\<lparr>prod_id = 1, prod_name = JStr (ascii ''Apple''), prod_price = JNum (Fin 1),
        createdAt = 1000\<rparr>,
       \<lparr>prod_id = 2, prod_name = JStr (ascii ''Berry''), prod_price = JNum (Fin 2),
        createdAt = 1000\<rparr>,
       \<lparr>prod_id = 3, prod_name = JStr (ascii ''Cherry''), prod_price = JNum (Fin 3),
        createdAt = 1000\<rparr>]
      \<lparr>limit = None, skip = None\<rparr>
     = Listed
        [\<lparr>prod_id = 1, prod_name = JStr (ascii ''Apple''), prod_price = JNum (Fin 1),
          createdAt = 1000\<rparr>,
         \<lparr>prod_id = 2, prod_name = JStr (ascii ''Berry''), prod_price = JNum (Fin 2),
          createdAt = 1000\<rparr>,
         \<lparr>prod_id = 3, prod_name = JStr (ascii ''Cherry''), prod_price = JNum (Fin 3),
          createdAt = 1000\<rparr>] \<and>
   parseInt (ascii ''99999999999999999999999'') = Some 99999999999999999999999 \<and>
   validatePaginationParams
      \<lparr>limit = None, skip = Some (QStr (ascii ''99999999999999999999999''))\<rparr>
     = Inr \<lparr>limit = None, skip = Some (QStr (ascii ''1e+23''))\<rparr> \<and>
   getProducts True
      [\<lparr>prod_id = 1, prod_name = JStr (ascii ''Apple''), prod_price = JNum (Fin 1),
        createdAt = 1000\<rparr>,
       \<lparr>prod_id = 2, prod_name = JStr (ascii ''Berry''), prod_price = JNum (Fin 2),
        createdAt = 2000\<rparr>]
      \<lparr>limit = None, skip = Some (QStr (ascii ''99999999999999999999999''))\<rparr>
     = Listed
        [\<lparr>prod_id = 1, prod_name = JStr (ascii ''Apple''), prod_price = JNum (Fin 1),
          createdAt = 1000\<rparr>]"
proof -
  have v: "validatePaginationParams
      \<lparr>limit = None, skip = Some (QStr (ascii ''99999999999999999999999''))\<rparr>
     = Inr \<lparr>limit = None, skip = Some (QStr (ascii ''1e+23''))\<rparr>"
    by (simp add: validatePaginationParams_def limitBlock_def skipBlock_def int_eval str_eval
        num_eval)
  have p: "parseInt (ascii ''1e+23'') = Some 1"
    by (simp add: int_eval str_eval)
  have pu: "parseInt (ascii ''undefined'') = None"
    using parseInt_undefined by (simp add: toStringOpt_def)
  have g: "getProducts True
      [\<lparr>prod_id = 1, prod_name = JStr (ascii ''Apple''), prod_price = JNum (Fin 1),
        createdAt = 1000\<rparr>,
       \<lparr>prod_id = 2, prod_name = JStr (ascii ''Berry''), prod_price = JNum (Fin 2),
        createdAt = 2000\<rparr>]
      \<lparr>limit = None, skip = Some (QStr (ascii ''99999999999999999999999''))\<rparr>
     = Listed
        [\<lparr>prod_id = 1, prod_name = JStr (ascii ''Apple''), prod_price = JNum (Fin 1),
          createdAt = 1000\<rparr>]"
    by (simp add: getProducts_def v toStringOpt_def p pu orElse_def findProducts_def
        sortByCreatedAtDesc_def)
  have rest: "postProduct True 1 1000 []
      (JObj [(ascii ''name'', JStr (ascii ''Apple'')), (ascii ''price'', JNum (Fin 1))])
     = (Created \<lparr>prod_id = 1, prod_name = JStr (ascii ''Apple''), prod_price = JNum (Fin 1),
                 createdAt = 1000\<rparr>,
        [\<lparr>prod_id = 1, prod_name = JStr (ascii ''Apple''), prod_price = JNum (Fin 1),
          createdAt = 1000\<rparr>])"
    "postProduct True 2 1000
      [\<lparr>prod_id = 1, prod_name = JStr (ascii ''Apple''), prod_price = JNum (Fin 1),
        createdAt = 1000\<rparr>]
      (JObj [(ascii ''name'', JStr (ascii ''Berry'')), (ascii ''price'', JNum (Fin 2))])
     = (Created \<lparr>prod_id = 2, prod_name = JStr (ascii ''Berry''), prod_price = JNum (Fin 2),
                 createdAt = 1000\<rparr>,
        [\<lparr>prod_id = 1, prod_name = JStr (ascii ''Apple''), prod_price = JNum (Fin 1),
          createdAt = 1000\<rparr>,
         \<lparr>prod_id = 2, prod_name = JStr (ascii ''Berry''), prod_price = JNum (Fin 2),
          createdAt = 1000\<rparr>])"
    "postProduct True 3 1000
      [\<lparr>prod_id = 1, prod_name = JStr (ascii ''Apple''), prod_price = JNum (Fin 1),
        createdAt = 1000\<rparr>,
       \<lparr>prod_id = 2, prod_name = JStr (ascii ''Berry''), prod_price = JNum (Fin 2),
        createdAt = 1000\<rparr>]
      (JObj [(ascii ''name'', JStr (ascii ''Cherry'')), (ascii ''price'', JNum (Fin 3))])
     = (Created \<lparr>prod_id = 3, prod_name = JStr (ascii ''Cherry''), prod_price = JNum (Fin 3),
                 createdAt = 1000\<rparr>,
        [\<lparr>prod_id = 1, prod_name = JStr (ascii ''Apple''), prod_price = JNum (Fin 1),
          createdAt = 1000\<rparr>,
         \<lparr>prod_id = 2, prod_name = JStr (ascii ''Berry''), prod_price = JNum (Fin 2),
          createdAt = 1000\<rparr>,
         \<lparr>prod_id = 3, prod_name = JStr (ascii ''Cherry''), prod_price = JNum (Fin 3),
          createdAt = 1000\<rparr>])"
    by (simp_all add: postProduct_def save_def validateProductInput_def destructure_def str_eval
        num_eval)
  have same: "getProducts True
      [\<lparr>prod_id = 1, prod_name = JStr (ascii ''Apple''), prod_price = JNum (Fin 1),
        createdAt = 1000\<rparr>,
       \<lparr>prod_id = 2, prod_name = JStr (ascii ''Berry''), prod_price = JNum (Fin 2),
        createdAt = 1000\<rparr>,
       \<lparr>prod_id = 3, prod_name = JStr (ascii ''Cherry''), prod_price = JNum (Fin 3),
        createdAt = 1000\<rparr>]
      \<lparr>limit = None, skip = None\<rparr>
     = Listed
        [\<lparr>prod_id = 1, prod_name = JStr (ascii ''Apple''), prod_price = JNum (Fin 1),
          createdAt = 1000\<rparr>,
         \<lparr>prod_id = 2, prod_name = JStr (ascii ''Berry''), prod_price = JNum (Fin 2),
          createdAt = 1000\<rparr>,
         \<lparr>prod_id = 3, prod_name = JStr (ascii ''Cherry''), prod_price = JNum (Fin 3),
          createdAt = 1000\<rparr>]"
    by (simp add: getProducts_def default_query parseInt_undefined orElse_def findProducts_def
        sortByCreatedAtDesc_def)
  have pn: "parseInt (ascii ''99999999999999999999999'') = Some 99999999999999999999999"
    by (simp add: int_eval str_eval)
  from rest same pn v g show ?thesis by (intro conjI)
qed

text \<open>
  C9, amended. The list route returns the products ordered by \<open>createdAt\<close> descending,
  skipping the first \<open>skip\<close> entries, for a skip below \<open>2^53\<close>, and returning at most
  \<open>limit\<close> entries (100 and 0 when absent); after creating A, then B, then C, at strictly
  increasing creation times, listing with default pagination returns \<open>[C, B, A]\<close>.
\<close>

theorem list_products:
  "(validatePaginationParams q = Inr q1 \<and> orElse (parseInt (toStringOpt (skip q))) 0 < 2 ^ 53 \<longrightarrow>
      getProducts True store q =
        Listed (take (nat (orElse (parseInt (toStringOpt (limit q))) 100))
                  (drop (nat (orElse (parseInt (toStringOpt (skip q))) 0))
                     (sortByCreatedAtDesc store)))) \<and>
   sorted_wrt (\<lambda>x y. createdAt y \<le> createdAt x) (sortByCreatedAtDesc store) \<and>
   set (sortByCreatedAtDesc store) = set store \<and>
   length (sortByCreatedAtDesc store) = length store \<and>
   (getProducts storeOk store q = Listed ps \<longrightarrow>
      sorted_wrt (\<lambda>x y. createdAt y \<le> createdAt x) ps \<and> length ps \<le> 100 \<and> set ps \<subseteq> set store) \<and>
   (postProduct True ida ta [] bodyA = (Created a, s1) \<and>
    postProduct True idb tb s1 bodyB = (Created b, s2) \<and>
    postProduct True idc tc s2 bodyC = (Created c, s3) \<and> ta < tb \<and> tb < tc \<longrightarrow>
      getProducts True s3 \<lparr>limit = None, skip = None\<rparr> = Listed [c, b, a])"
proof (intro conjI impI)
  assume "validatePaginationParams q = Inr q1 \<and> orElse (parseInt (toStringOpt (skip q))) 0 < 2 ^ 53"
  then show "getProducts True store q =
        Listed (take (nat (orElse (parseInt (toStringOpt (limit q))) 100))
                  (drop (nat (orElse (parseInt (toStringOpt (skip q))) 0))
                     (sortByCreatedAtDesc store)))"
    using getProducts_accepted by blast
next
  show "sorted_wrt (\<lambda>x y. createdAt y \<le> createdAt x) (sortByCreatedAtDesc store)"
    by (rule sorted_desc)
  show "set (sortByCreatedAtDesc store) = set store"
    by (simp add: sortByCreatedAtDesc_def)
  show "length (sortByCreatedAtDesc store) = length store"
    by (simp add: sortByCreatedAtDesc_def)
next
  assume g: "getProducts storeOk store q = Listed ps"
  show "sorted_wrt (\<lambda>x y. createdAt y \<le> createdAt x) ps" "length ps \<le> 100" "set ps \<subseteq> set store"
    using getProducts_Listed [OF g] by simp_all
next
  assume h: "postProduct True ida ta [] bodyA = (Created a, s1) \<and>
    postProduct True idb tb s1 bodyB = (Created b, s2) \<and>
    postProduct True idc tc s2 bodyC = (Created c, s3) \<and> ta < tb \<and> tb < tc"
  then have "s1 = [a]" "createdAt a = ta" "s2 = s1 @ [b]" "createdAt b = tb"
    "s3 = s2 @ [c]" "createdAt c = tc"
    using postProduct_Created(1,2) by (metis append_Nil)+
  with h show "getProducts True s3 \<lparr>limit = None, skip = None\<rparr> = Listed [c, b, a]"
    by (simp add: list_three)
qed

theorem list_products_witness:
  "getProducts True
      [\<lparr>prod_id = 1, prod_name = JStr (ascii ''Apple''), prod_price = JNum (Fin 1), createdAt = 10\<rparr>,
       \<lparr>prod_id = 2, prod_name = JStr (ascii ''Berry''), prod_price = JNum (Fin 2), createdAt = 20\<rparr>]
      \<lparr>limit = Some (QStr (ascii ''1'')), skip = Some (QStr (ascii ''1''))\<rparr>
     = Listed [\<lparr>prod_id = 1, prod_name = JStr (ascii ''Apple''), prod_price = JNum (Fin 1),
                createdAt = 10\<rparr>] \<and>
   getProducts True
      [\<lparr>prod_id = 1, prod_name = JStr (ascii ''Apple''), prod_price = JNum (Fin 1), createdAt = 10\<rparr>,
       \<lparr>prod_id = 2, prod_name = JStr (ascii ''Berry''), prod_price = JNum (Fin 2), createdAt = 20\<rparr>,
       \<lparr>prod_id = 3, prod_name = JStr (ascii ''Cherry''), prod_price = JNum (Fin 3), createdAt = 30\<rparr>]
      \<lparr>limit = None, skip = None\<rparr>
     = Listed
        [\<lparr>prod_id = 3, prod_name = JStr (ascii ''Cherry''), prod_price = JNum (Fin 3), createdAt = 30\<rparr>,
         \<lparr>prod_id = 2, prod_name = JStr (ascii ''Berry''), prod_price = JNum (Fin 2), createdAt = 20\<rparr>,
         \<lparr>prod_id = 1, prod_name = JStr (ascii ''Apple''), prod_price = JNum (Fin 1), createdAt = 10\<rparr>]"
proof -
  define a where "a = \<lparr>prod_id = 1, prod_name = JStr (ascii ''Apple''), prod_price = JNum (Fin 1), createdAt = 10\<rparr>"
  define b where "b = \<lparr>prod_id = 2, prod_name = JStr (ascii ''Berry''), prod_price = JNum (Fin 2), createdAt = 20\<rparr>"
  define c where "c = \<lparr>prod_id = 3, prod_name = JStr (ascii ''Cherry''), prod_price = JNum (Fin 3), createdAt = 30\<rparr>"
  define q where "q = \<lparr>limit = Some (QStr (ascii ''1'')), skip = Some (QStr (ascii ''1''))\<rparr>"
  have v: "validatePaginationParams q = Inr q"
    by (simp add: q_def validatePaginationParams_def limitBlock_def skipBlock_def int_eval str_eval)
  have pl: "parseInt (toStringOpt (limit q)) = Some 1" "parseInt (toStringOpt (skip q)) = Some 1"
    by (simp_all add: q_def int_eval str_eval)
  have 1: "getProducts True [a, b] q = Listed [a]"
    using list_products [where q = q and ?q1.0 = q and store = "[a, b]"] v pl
    by (simp add: orElse_def sortByCreatedAtDesc_def a_def b_def)
  have pa: "postProduct True 1 10 []
      (JObj [(ascii ''name'', JStr (ascii ''Apple'')), (ascii ''price'', JNum (Fin 1))]) = (Created a, [a])"
    by (simp add: postProduct_def save_def validateProductInput_def destructure_def str_eval
        num_eval a_def)
  have pb: "postProduct True 2 20 [a]
      (JObj [(ascii ''name'', JStr (ascii ''Berry'')), (ascii ''price'', JNum (Fin 2))]) = (Created b, [a, b])"
    by (simp add: postProduct_def save_def validateProductInput_def destructure_def str_eval
        num_eval b_def)
  have pc: "postProduct True 3 30 [a, b]
      (JObj [(ascii ''name'', JStr (ascii ''Cherry'')), (ascii ''price'', JNum (Fin 3))]) = (Created c, [a, b, c])"
    by (simp add: postProduct_def save_def validateProductInput_def destructure_def str_eval
        num_eval c_def)
  have 2: "getProducts True [a, b, c] \<lparr>limit = None, skip = None\<rparr> = Listed [c, b, a]"
    using list_products [where ida = 1 and ta = 10 and a = a and ?s1.0 = "[a]"
        and bodyA = "JObj [(ascii ''name'', JStr (ascii ''Apple'')), (ascii ''price'', JNum (Fin 1))]"
        and idb = 2 and tb = 20 and b = b and ?s2.0 = "[a, b]"
        and bodyB = "JObj [(ascii ''name'', JStr (ascii ''Berry'')), (ascii ''price'', JNum (Fin 2))]"
        and idc = 3 and tc = 30 and c = c and ?s3.0 = "[a, b, c]"
        and bodyC = "JObj [(ascii ''name'', JStr (ascii ''Cherry'')), (ascii ''price'', JNum (Fin 3))]"]
      pa pb pc by simp
  from 1 2 show ?thesis by (simp add: a_def b_def c_def q_def)
qed

section \<open>The size guard\<close>

text \<open>
  C5 as stated fails. In the index file that installs the guard, the guard stands after
  \<open>express.json()\<close>: a request with a declared length of 2 MB is answered 413 only after
  the body parser has run and passed it on. The other index file installs no guard: there
  the same request reaches the create route, whose field validation answers 400. (The
  body parser here is one that passes the request on with an empty object as body, as
  \<open>express.json()\<close> does for a request that is not JSON.)
\<close>

theorem size_guard_not_before_parser:
  "app passOn (parsedAs (JObj [])) (createRoute True 1 1000 [])
      \<lparr>req_headers = [(''content-length'', ascii ''2097152'')], req_body = JUndefined,
       req_query = \<lparr>limit = None, skip = None\<rparr>\<rparr>
     = ([CorsStage, JsonStage, SizeGuardStage], Err (reject 413 ''Request payload too large'')) \<and>
   appNoGuard passOn (parsedAs (JObj [])) (createRoute True 1 1000 [])
      \<lparr>req_headers = [(''content-length'', ascii ''2097152'')], req_body = JUndefined,
       req_query = \<lparr>limit = None, skip = None\<rparr>\<rparr>
     = ([CorsStage, JsonStage, LoggerStage, RouteStage],
        Lib (PostError (reject 400 ''Product name is required''), []))"
  by (simp add: app_def appNoGuard_def passOn_def parsedAs_def limitRequestSize_def req_get_def
      createRoute_def postProduct_def validateProductInput_def destructure_def int_eval str_eval)

text \<open>
  C5, amended. In the index file that installs the size guard, every request that the
  middleware before the guard (\<open>cors()\<close>, \<open>express.json()\<close>) passes on and whose declared
  content length, as \<open>parseInt\<close> reads it, exceeds 1,048,576 is answered by the guard with
  413 and the payload-too-large message, whatever the routes are: no route, and so no
  field validation, runs.
\<close>

theorem size_guard:
  assumes "cors r0 = Inr r1" and "json r1 = Inr r2"
    and "req_get r2 ''content-length'' = Some cl" and "parseInt cl = Some n" and "1048576 < n"
  shows "app cors json routes r0
           = ([CorsStage, JsonStage, SizeGuardStage], Err (reject 413 ''Request payload too large''))"
proof -
  from assms(4) have "cl \<noteq> []" using parseInt_empty by auto
  with assms show ?thesis
    by (simp add: app_def limitRequestSize_def)
qed

theorem size_guard_witness:
  "app passOn passOn noRoutes
      \<lparr>req_headers = [(''content-length'', ascii ''1048577'')], req_body = JUndefined,
       req_query = \<lparr>limit = None, skip = None\<rparr>\<rparr>
     = ([CorsStage, JsonStage, SizeGuardStage], Err (reject 413 ''Request payload too large''))"
proof (rule size_guard)
  show "passOn \<lparr>req_headers = [(''content-length'', ascii ''1048577'')], req_body = JUndefined,
       req_query = \<lparr>limit = None, skip = None\<rparr>\<rparr> = Inr \<lparr>req_headers = [(''content-length'', ascii ''1048577'')], req_body = JUndefined,
       req_query = \<lparr>limit = None, skip = None\<rparr>\<rparr>"
    by (simp add: passOn_def)
  show "passOn \<lparr>req_headers = [(''content-length'', ascii ''1048577'')], req_body = JUndefined,
       req_query = \<lparr>limit = None, skip = None\<rparr>\<rparr> = Inr \<lparr>req_headers = [(''content-length'', ascii ''1048577'')], req_body = JUndefined,
       req_query = \<lparr>limit = None, skip = None\<rparr>\<rparr>"
    by (simp add: passOn_def)
  show "req_get \<lparr>req_headers = [(''content-length'', ascii ''1048577'')], req_body = JUndefined,
       req_query = \<lparr>limit = None, skip = None\<rparr>\<rparr> ''content-length'' = Some (ascii ''1048577'')"
    by (simp add: req_get_def)
  show "parseInt (ascii ''1048577'') = Some 1048577"
    by (simp add: int_eval str_eval)
  show "(1048576::int) < 1048577" by simp
qed

section \<open>Persisted products\<close>

text \<open>
  C1 as stated fails: the name \<open>"<   >"\<close> is sanitized to three spaces, which pass the
  length rules and are stored; validated again, the stored name is trimmed to the empty
  string and rejected.
\<close>

theorem persisted_name_fails_revalidation:
  "postProduct True 1 1000 []
      (JObj [(ascii ''name'', JStr (ascii ''<   >'')), (ascii ''price'', JNum (Fin 1))])
     = (Created \<lparr>prod_id = 1, prod_name = JStr (ascii ''   ''), prod_price = JNum (Fin 1),
                 createdAt = 1000\<rparr>,
        [\<lparr>prod_id = 1, prod_name = JStr (ascii ''   ''), prod_price = JNum (Fin 1),
          createdAt = 1000\<rparr>]) \<and>
   validateProductInput (JObj [(ascii ''name'', JStr (ascii ''   '')), (ascii ''price'', JNum (Fin 1))])
     = Inl (reject 400 ''Product name cannot be empty'')"
  by (simp add: postProduct_def save_def validateProductInput_def destructure_def str_eval num_eval)

text \<open>
  C1, amended. Every product persisted through create holds the sanitized name of the
  request, of 3 to 100 code units and without \<open><\<close>, \<open>>\<close>, single or double quote, and
  the rounded price of the request, which is the double nearest to \<open>k / 100\<close> for a whole
  number of cents \<open>k\<close> from 0 to 99999999: a number in [0, 999999.99] with 2 decimal
  places. The stored name and price are accepted again by \<open>validateProductInput\<close>
  exactly when the stored name, trimmed, still has at least 3 code units.
\<close>

theorem persisted_product_constraints:
  assumes "postProduct storeOk newId now store body = (Created p, store')"
  shows "store' = store @ [p] \<and>
         (\<exists>s0 p0 s k r.
            destructure body = Some (JStr s0, JNum (Fin p0)) \<and>
            s = sanitizeString s0 \<and> roundPrice (Fin p0) = Fin r \<and>
            prod_name p = JStr s \<and> prod_price p = JNum (Fin r) \<and>
            3 \<le> length s \<and> length s \<le> 100 \<and>
            0x3C \<notin> set s \<and> 0x3E \<notin> set s \<and> 0x27 \<notin> set s \<and> 0x22 \<notin> set s \<and>
            0 \<le> k \<and> k \<le> 99999999 \<and> fl (of_int k / 100) = Fin r \<and>
            0 \<le> r \<and> \<not> js_gt (Fin r) MAX_PRICE \<and>
            (rejection (validateProductInput
               (JObj [(ascii ''name'', prod_name p), (ascii ''price'', prod_price p)])) = None
             \<longleftrightarrow> 3 \<le> length (trim s)))"
proof -
  from postProduct_Created [OF assms] obtain b where st: "store' = store @ [p]"
    and v: "validateProductInput body = Inr b"
    and d: "destructure b = Some (prod_name p, prod_price p)"
    by blast
  from validate_Inr [OF v] obtain kvs s0 p0 where a: "body = JObj kvs"
    "destructure body = Some (JStr s0, JNum (Fin p0))"
    "3 \<le> length (sanitizeString s0)" "length (sanitizeString s0) \<le> 100"
    "0 \<le> p0" "p0 \<le> 4294967253050327 / 4294967296"
    "b = setProp (setProp body (ascii ''name'') (JStr (sanitizeString s0)))
           (ascii ''price'') (JNum (roundPrice (Fin p0)))"
    by blast
  from roundPrice_accepted [OF a(5,6)] obtain k r where r: "roundPrice (Fin p0) = Fin r"
    "fl (of_int k / 100) = Fin r" "0 \<le> k" "k \<le> 99999999"
    "0 \<le> r" "r \<le> 4294967253050327 / 4294967296"
    by blast
  define s where "s = sanitizeString s0"
  from d a(1,7) r(1) have np: "prod_name p = JStr s" "prod_price p = JNum (Fin r)"
    by (simp_all add: s_def)
  have ang: "\<And>c. c \<in> set s \<Longrightarrow> \<not> isAngle c" and quo: "\<And>c. c \<in> set s \<Longrightarrow> \<not> isQuote c"
    unfolding s_def by (rule sanitize_no_angle, assumption) (rule sanitize_no_quote, assumption)
  then have chars: "0x3C \<notin> set s" "0x3E \<notin> set s" "0x27 \<notin> set s" "0x22 \<notin> set s"
    by (auto simp: isAngle_def isQuote_def)
  have len: "3 \<le> length s" "length s \<le> 100"
    using a(3,4) by (simp_all add: s_def)
  have de: "destructure (JObj [(ascii ''name'', prod_name p), (ascii ''price'', prod_price p)])
              = Some (JStr s, JNum (Fin r))"
    using name_price_keys by (simp add: destructure_def np)
  have re: "rejection (validateProductInput
               (JObj [(ascii ''name'', prod_name p), (ascii ''price'', prod_price p)])) = None
             \<longleftrightarrow> 3 \<le> length (trim s)"
    using s_def len r(5,6) de by (rule revalidate_iff)
  from r(6) have mx: "\<not> js_gt (Fin r) MAX_PRICE"
    by (simp add: js_gt_def MAX_PRICE_value)
  have big: "destructure body = Some (JStr s0, JNum (Fin p0)) \<and>
            s = sanitizeString s0 \<and> roundPrice (Fin p0) = Fin r \<and>
            prod_name p = JStr s \<and> prod_price p = JNum (Fin r) \<and>
            3 \<le> length s \<and> length s \<le> 100 \<and>
            0x3C \<notin> set s \<and> 0x3E \<notin> set s \<and> 0x27 \<notin> set s \<and> 0x22 \<notin> set s \<and>
            0 \<le> k \<and> k \<le> 99999999 \<and> fl (of_int k / 100) = Fin r \<and>
            0 \<le> r \<and> \<not> js_gt (Fin r) MAX_PRICE \<and>
            (rejection (validateProductInput
               (JObj [(ascii ''name'', prod_name p), (ascii ''price'', prod_price p)])) = None
             \<longleftrightarrow> 3 \<le> length (trim s))"
    using a(2) s_def r(1) np len chars r(3,4,2,5) mx re by (intro conjI)
  show ?thesis
    apply (rule conjI [OF st])
    apply (rule exI [where x = s0])
    apply (rule exI [where x = p0])
    apply (rule exI [where x = s])
    apply (rule exI [where x = k])
    apply (rule exI [where x = r])
    apply (rule big)
    done
qed

theorem persisted_product_constraints_witness:
  "rejection (validateProductInput
      (JObj [(ascii ''name'', JStr (ascii ''Laptop'')), (ascii ''price'', JNum (Fin 20))])) = None"
proof -
  define P where "P = \<lparr>prod_id = 7, prod_name = JStr (ascii ''Laptop''), prod_price = JNum (Fin 20),
                 createdAt = 1000\<rparr>"
  have e: "postProduct True 7 1000 []
      (JObj [(ascii ''name'', JStr (ascii '' <Laptop> '')), (ascii ''price'', JNum (fl (19999 / 1000)))])
     = (Created P, [P])"
    by (simp add: P_def postProduct_def save_def validateProductInput_def destructure_def
        str_eval num_eval)
  from persisted_product_constraints [OF e] obtain s where s: "prod_name P = JStr s"
    "rejection (validateProductInput
        (JObj [(ascii ''name'', prod_name P), (ascii ''price'', prod_price P)])) = None
      \<longleftrightarrow> 3 \<le> length (trim s)"
    apply (elim conjE exE)
    apply (rule that)
     apply assumption+
    done
  from s(1) have "s = ascii ''Laptop''" by (simp add: P_def)
  then have "3 \<le> length (trim s)" by (simp add: str_eval)
  with s(2) show ?thesis by (simp add: P_def)
qed

section \<open>Price normalisation\<close>

text \<open>
  C8 as stated fails: the rounding is done in binary64 arithmetic. The price \<open>1.005\<close> is
  normalised to 1 where rounding half-up gives 1.01 (the product \<open>1.005 * 100\<close> is the
  double 100.49999999999999), and the price \<open>0.024999999999999998\<close>, which is below
  0.025 both as written and as a double, is normalised to 0.03 where rounding half-up
  gives 0.02 (the product rounds up to 2.5 exactly).
\<close>

theorem price_rounding_not_half_up:
  "validateProductInput
      (JObj [(ascii ''name'', JStr (ascii ''ABC'')), (ascii ''price'', JNum (fl (1005 / 1000)))])
     = Inr (JObj [(ascii ''name'', JStr (ascii ''ABC'')), (ascii ''price'', JNum (Fin 1))]) \<and>
   \<lfloor>(1005 / 1000 :: rat) * 100 + 1 / 2\<rfloor> = 101 \<and>
   fl (24999999999999998 / 1000000000000000000) = Fin (7205759403792793 / 288230376151711744) \<and>
   \<lfloor>(7205759403792793 / 288230376151711744 :: rat) * 100 + 1 / 2\<rfloor> = 2 \<and>
   \<lfloor>(24999999999999998 / 1000000000000000000 :: rat) * 100 + 1 / 2\<rfloor> = 2 \<and>
   validateProductInput
      (JObj [(ascii ''name'', JStr (ascii ''ABC'')),
             (ascii ''price'', JNum (fl (24999999999999998 / 1000000000000000000)))])
     = Inr (JObj [(ascii ''name'', JStr (ascii ''ABC'')), (ascii ''price'', JNum (fl (3 / 100)))]) \<and>
   fl (3 / 100) \<noteq> fl (2 / 100)"
  by (simp add: validateProductInput_def destructure_def str_eval num_eval)

text \<open>
  C8, amended. On acceptance \<open>validateProductInput\<close> replaces the caller's name and price
  by the sanitized name and by the double nearest to \<open>k / 100\<close>, where \<open>k\<close> is the half-up
  rounding \<open>\<lfloor>y + 1/2\<rfloor>\<close> of the double \<open>y\<close> nearest to \<open>price * 100\<close>; \<open>k\<close> is the half-up
  rounding of the exact product or one more, and it is the former whenever the exact
  product is itself a double. In particular the price 19.999 is normalised to 20.
\<close>

theorem price_normalised:
  "(validateProductInput body = Inr body' \<longrightarrow>
      (\<exists>s p y k r.
         destructure body = Some (JStr s, JNum (Fin p)) \<and>
         destructure body' = Some (JStr (sanitizeString s), JNum (Fin r)) \<and>
         body' = setProp (setProp body (ascii ''name'') (JStr (sanitizeString s)))
                   (ascii ''price'') (JNum (Fin r)) \<and>
         fl (p * 100) = Fin y \<and> k = \<lfloor>y + 1 / 2\<rfloor> \<and> fl (of_int k / 100) = Fin r \<and>
         \<lfloor>p * 100 + 1 / 2\<rfloor> \<le> k \<and> k \<le> \<lfloor>p * 100 + 1 / 2\<rfloor> + 1 \<and>
         (is_double (p * 100) \<longrightarrow> k = \<lfloor>p * 100 + 1 / 2\<rfloor>))) \<and>
   validateProductInput
      (JObj [(ascii ''name'', JStr (ascii ''ABC'')), (ascii ''price'', JNum (fl (19999 / 1000)))])
     = Inr (JObj [(ascii ''name'', JStr (ascii ''ABC'')), (ascii ''price'', JNum (Fin 20))])"
proof (intro conjI impI)
  assume v: "validateProductInput body = Inr body'"
  from validate_Inr [OF v] obtain kvs s p where a: "body = JObj kvs"
    "destructure body = Some (JStr s, JNum (Fin p))"
    "0 \<le> p" "p \<le> 4294967253050327 / 4294967296"
    "body' = setProp (setProp body (ascii ''name'') (JStr (sanitizeString s)))
               (ascii ''price'') (JNum (roundPrice (Fin p)))"
    by blast
  from roundPrice_accepted [OF a(3,4)] obtain y k r where r: "fl (p * 100) = Fin y"
    "k = \<lfloor>y + 1 / 2\<rfloor>" "roundPrice (Fin p) = Fin r" "fl (of_int k / 100) = Fin r"
    "\<lfloor>p * 100 + 1 / 2\<rfloor> \<le> k" "k \<le> \<lfloor>p * 100 + 1 / 2\<rfloor> + 1"
    by blast
  have "is_double (p * 100) \<longrightarrow> k = \<lfloor>p * 100 + 1 / 2\<rfloor>"
    using r(1,2) by (simp add: is_double_def)
  moreover have "destructure body' = Some (JStr (sanitizeString s), JNum (Fin r))"
    using a(1,5) r(3) by simp
  ultimately show "\<exists>s p y k r.
         destructure body = Some (JStr s, JNum (Fin p)) \<and>
         destructure body' = Some (JStr (sanitizeString s), JNum (Fin r)) \<and>
         body' = setProp (setProp body (ascii ''name'') (JStr (sanitizeString s)))
                   (ascii ''price'') (JNum (Fin r)) \<and>
         fl (p * 100) = Fin y \<and> k = \<lfloor>y + 1 / 2\<rfloor> \<and> fl (of_int k / 100) = Fin r \<and>
         \<lfloor>p * 100 + 1 / 2\<rfloor> \<le> k \<and> k \<le> \<lfloor>p * 100 + 1 / 2\<rfloor> + 1 \<and>
         (is_double (p * 100) \<longrightarrow> k = \<lfloor>p * 100 + 1 / 2\<rfloor>)"
    using a(2,5) r by auto
next
  show "validateProductInput
      (JObj [(ascii ''name'', JStr (ascii ''ABC'')), (ascii ''price'', JNum (fl (19999 / 1000)))])
     = Inr (JObj [(ascii ''name'', JStr (ascii ''ABC'')), (ascii ''price'', JNum (Fin 20))])"
    by (simp add: validateProductInput_def destructure_def str_eval num_eval)
qed

theorem price_normalised_witness:
  "\<exists>y k. fl (12 * 100) = Fin y \<and> k = \<lfloor>y + 1 / 2\<rfloor> \<and> fl (of_int k / 100) = Fin 12 \<and>
     k = \<lfloor>(12 :: rat) * 100 + 1 / 2\<rfloor>"
proof -
  define b where "b = JObj [(ascii ''name'', JStr (ascii '' Desk '')), (ascii ''price'', JNum (Fin 12))]"
  define b' where "b' = JObj [(ascii ''name'', JStr (ascii ''Desk'')), (ascii ''price'', JNum (Fin 12))]"
  have v: "validateProductInput b = Inr b'"
    by (simp add: b_def b'_def validateProductInput_def destructure_def str_eval num_eval)
  have i: "is_double (12 * 100)"
    by (simp add: is_double_def num_eval)
  have d: "destructure b = Some (JStr (ascii '' Desk ''), JNum (Fin 12))"
    "destructure b' = Some (JStr (ascii ''Desk''), JNum (Fin 12))"
    by (simp_all add: b_def b'_def destructure_def ascii_def)
  from price_normalised [of b b'] v
  obtain s p y k r where o: "destructure b = Some (JStr s, JNum (Fin p))"
    "destructure b' = Some (JStr (sanitizeString s), JNum (Fin r))"
    "fl (p * 100) = Fin y" "k = \<lfloor>y + 1 / 2\<rfloor>" "fl (of_int k / 100) = Fin r"
    "is_double (p * 100) \<longrightarrow> k = \<lfloor>p * 100 + 1 / 2\<rfloor>"
    by blast
  from o(1) d(1) have p: "p = 12" by simp
  from o(2) d(2) have r: "r = 12" by simp
  from o(3-6) i show ?thesis unfolding p r by blast
qed

end
